theory Spec2Isabelle
  imports Complex_Main "HOL-Library.Multiset"
begin

section \<open>Data model\<close>

text \<open>
  The entities of \<open>transaction.entity.ts\<close> and \<open>category.entity.ts\<close>. A calendar date
  (\<open>DATE\<close> column) is a day number, so that the order of dates is the order of integers. An
  amount (\<open>DECIMAL(12, 2)\<close> column) is counted in hundredths. The primary key of a
  transaction is a uuid, held as its 128-bit number: the database orders uuids as it orders
  these numbers. \<open>userId\<close> and \<open>categoryId\<close> are only ever compared for equality and stay
  opaque texts. Timestamps are clock readings.
\<close>

type_synonym date = int
type_synonym amount = int
type_synonym timestamp = nat
type_synonym uuid = nat

datatype txn_type = Income | Expense

record category =
  cat_id :: string
  cat_userId :: string
  cat_name :: string
  cat_type :: txn_type
  cat_color :: string
  cat_icon :: string
  cat_isDefault :: bool

record transaction =
  id_txn :: uuid
  userId :: string
  categoryId :: string
  amount :: amount
  type_txn :: txn_type
  description :: "string option"
  date :: date
  createdAt :: timestamp
  updatedAt :: timestamp

text \<open>
  The two tables the services read and write. A table is a bag of rows; the list fixes the
  order in which the storage engine hands the rows to a query, about which the queries of
  this code make no assumption besides their own \<open>ORDER BY\<close>.
\<close>

record store =
  transactions :: "transaction list"
  categories :: "category list"

datatype error = NotFoundException | TypeError | QueryFailedError

text \<open>
  \<open>FilterTransactionDto\<close>. Every field is optional. \<open>page\<close> and \<open>limit\<close> arrive as decimal
  strings and are read with \<open>parseInt(_, 10)\<close>; the model holds the integer that is read.
\<close>

record FilterTransactionDto =
  type_f :: "txn_type option"
  categoryId_f :: "string option"
  startDate :: "date option"
  endDate :: "date option"
  search :: "string option"
  page :: "int option"
  limit :: "int option"

text \<open>\<open>CreateTransactionDto\<close>. The amount is a number of at most two decimals, given in
  hundredths; the date is given as the column stores it.\<close>

record CreateTransactionDto =
  type_c :: txn_type
  amount_c :: amount
  date_c :: date
  categoryId_c :: string
  description_c :: "string option"

text \<open>\<open>UpdateTransactionDto\<close> is the partial type of \<open>CreateTransactionDto\<close>: a field that
  the request leaves out is \<open>None\<close>.\<close>

record UpdateTransactionDto =
  type_u :: "txn_type option"
  amount_u :: "amount option"
  date_u :: "date option"
  categoryId_u :: "string option"
  description_u :: "string option"

type_synonym txn_row = "transaction \<times> category option"

text \<open>
  An entity object in memory: its column properties, the \<open>category\<close> relation object when
  it is loaded, and whether the \<open>amount\<close> property holds a number that \<open>Object.assign\<close> or
  \<open>create\<close> put there, the driver delivering the column as a decimal text.
\<close>

record entity =
  columns :: transaction
  relation :: "category option"
  amount_assigned :: bool

text \<open>What \<open>Math.ceil(total / limitNum)\<close> can be.\<close>

datatype js_number = Num int | Infinity | NaN

record page_result =
  data :: "txn_row list"
  total_r :: int
  page_r :: int
  limit_r :: int
  totalPages :: js_number

section \<open>Numbers\<close>

text \<open>
  JavaScript numbers are IEEE 754 doubles. A finite double is a rational number, and every
  operation gives the double nearest to the exact result, a tie going to the even
  significand. \<open>fl\<close> is this rounding to 53 significant bits; overflow and subnormal
  numbers are not modelled, the sums of the amounts of a table staying far from both.
\<close>

function halvings :: "rat \<Rightarrow> nat" where
  "halvings x = (if 2 \<le> x then Suc (halvings (x / 2)) else 0)"
  by pat_completeness auto
termination
proof (relation "measure (\<lambda>x. nat \<lfloor>x\<rfloor>)")
  show "wf (measure (\<lambda>x::rat. nat \<lfloor>x\<rfloor>))" by simp
next
  fix x :: rat assume "2 \<le> x"
  then have "x / 2 \<le> x - 1" by simp
  then have "\<lfloor>x / 2\<rfloor> \<le> \<lfloor>x - 1\<rfloor>" by (rule floor_mono)
  moreover have "2 \<le> \<lfloor>x\<rfloor>" using \<open>2 \<le> x\<close> by (simp add: le_floor_iff)
  ultimately show "(x / 2, x) \<in> measure (\<lambda>x. nat \<lfloor>x\<rfloor>)" by simp
qed

function doublings :: "rat \<Rightarrow> nat" where
  "doublings x = (if 0 < x \<and> x < 1 then Suc (doublings (2 * x)) else 0)"
  by pat_completeness auto
termination
proof (relation "measure (\<lambda>x. nat \<lfloor>1 / x\<rfloor>)")
  show "wf (measure (\<lambda>x::rat. nat \<lfloor>1 / x\<rfloor>))" by simp
next
  fix x :: rat assume a: "0 < x \<and> x < 1"
  then have y: "1 < 1 / x" by simp
  have h: "1 / (2 * x) = (1 / x) / 2" by simp
  have "\<lfloor>(1 / x) / 2\<rfloor> < \<lfloor>1 / x\<rfloor>"
  proof (cases "2 \<le> 1 / x")
    case True
    then have "(1 / x) / 2 \<le> 1 / x - 1" by simp
    then have "\<lfloor>(1 / x) / 2\<rfloor> \<le> \<lfloor>1 / x - 1\<rfloor>" by (rule floor_mono)
    then show ?thesis by simp
  next
    case False
    then have "(1 / x) / 2 < 1" by simp
    then have "\<lfloor>(1 / x) / 2\<rfloor> < 1" by (simp add: floor_less_iff)
    moreover have "1 \<le> \<lfloor>1 / x\<rfloor>" using y by (simp add: le_floor_iff)
    ultimately show ?thesis by linarith
  qed
  moreover have "1 \<le> \<lfloor>1 / x\<rfloor>" using y by (simp add: le_floor_iff)
  ultimately show "(2 * x, x) \<in> measure (\<lambda>x. nat \<lfloor>1 / x\<rfloor>)"
    by (simp add: h)
qed

declare halvings.simps [simp del] doublings.simps [simp del]

text \<open>The binary exponent \<open>e\<close> of \<open>x \<noteq> 0\<close>: \<open>2 ^ e \<le> \<bar>x\<bar> < 2 ^ (e + 1)\<close>.\<close>

definition exponent :: "rat \<Rightarrow> int" where
  "exponent x = (if 1 \<le> \<bar>x\<bar> then int (halvings \<bar>x\<bar>) else - int (doublings \<bar>x\<bar>))"

definition pow2 :: "int \<Rightarrow> rat" where
  "pow2 e = (if 0 \<le> e then 2 ^ nat e else 1 / 2 ^ nat (- e))"

definition round_half_even :: "rat \<Rightarrow> int" where
  "round_half_even y =
     (let f = \<lfloor>y\<rfloor>; d = y - of_int f
      in if d < 1 / 2 then f else if 1 / 2 < d then f + 1 else if even f then f else f + 1)"

definition fl :: "rat \<Rightarrow> rat" where
  "fl x = (if x = 0 then 0
           else (let ulp = pow2 (exponent x - 52)
                 in of_int (round_half_even (x / ulp)) * ulp))"

text \<open>\<open>Number(t.amount)\<close>: the double nearest to the decimal that the column holds.\<close>

definition Number :: "amount \<Rightarrow> rat" where
  "Number a = fl (of_int a / 100)"

section \<open>Query building blocks\<close>

text \<open>JavaScript truthiness of an optional string: \<open>undefined\<close> and \<open>''\<close> are falsy.\<close>

definition truthy :: "string option \<Rightarrow> bool" where
  "truthy s = (case s of None \<Rightarrow> False | Some v \<Rightarrow> v \<noteq> [])"

text \<open>\<open>ORDER BY key DESC\<close>: an insertion sort on the negated key, which keeps rows of equal
  key in the order in which the engine delivered them.\<close>

definition orderBy_DESC :: "('a \<Rightarrow> int) \<Rightarrow> 'a list \<Rightarrow> 'a list" where
  "orderBy_DESC key xs = sort_key (\<lambda>x. - key x) xs"

text \<open>\<open>leftJoinAndSelect('transaction.category', 'category')\<close>: the category row with the
  transaction's \<open>categoryId\<close>, if there is one.\<close>

definition leftJoin :: "store \<Rightarrow> transaction \<Rightarrow> txn_row" where
  "leftJoin db t = (t, find (\<lambda>c. cat_id c = categoryId t) (categories db))"

text \<open>
  The database reads the text of a uuid parameter as its input function for uuids does:
  an optional opening brace, sixteen bytes of two hexadecimal digits each, a hyphen being
  allowed after every second byte but the last, the closing brace if there was an opening
  one, and nothing else. Any other text is an error of the query.
\<close>

definition hex_digit :: "char \<Rightarrow> nat option" where
  "hex_digit c =
     map_of (zip ''0123456789abcdefABCDEF''
               [0, 1, 2, 3, 4, 5, 6, 7, 8, 9, 10, 11, 12, 13, 14, 15, 10, 11, 12, 13, 14, 15]) c"

function uuid_bytes :: "nat \<Rightarrow> string \<Rightarrow> nat \<Rightarrow> (nat \<times> string) option" where
  "uuid_bytes i src acc =
     (if 16 \<le> i then Some (acc, src)
      else (case src of
              a # b # rest \<Rightarrow>
                (case hex_digit a of
                   None \<Rightarrow> None
                 | Some x \<Rightarrow>
                     (case hex_digit b of
                        None \<Rightarrow> None
                      | Some y \<Rightarrow>
                          uuid_bytes (Suc i)
                            (if take 1 rest = ''-'' \<and> odd i \<and> i < 15 then drop 1 rest else rest)
                            (acc * 256 + x * 16 + y)))
            | _ \<Rightarrow> None))"
  by pat_completeness auto
termination
  by (relation "measure (\<lambda>(i, src, acc). 16 - i)") auto

declare uuid_bytes.simps [simp del]

definition uuid_in :: "string \<Rightarrow> uuid option" where
  "uuid_in source =
     (let braces = (take 1 source = ''{'');
          src = (if braces then drop 1 source else source)
      in case uuid_bytes 0 src 0 of
           None \<Rightarrow> None
         | Some r \<Rightarrow>
             (if snd r = (if braces then ''}'' else []) then Some (fst r) else None))"

section \<open>TransactionsService\<close>

subsection \<open>findAll\<close>

text \<open>
  The \<open>WHERE\<close> clause that \<open>findAll\<close> builds, one conjunct per \<open>andWhere\<close>. \<open>ilike\<close> is the
  database's \<open>ILIKE\<close> operator (pattern first); a \<open>NULL\<close> description matches no pattern.
\<close>

definition date_filter :: "date option \<Rightarrow> date option \<Rightarrow> transaction \<Rightarrow> bool" where
  "date_filter sd ed t =
     (case sd of
        Some s \<Rightarrow> (case ed of Some e \<Rightarrow> s \<le> date t \<and> date t \<le> e | None \<Rightarrow> s \<le> date t)
      | None \<Rightarrow> (case ed of Some e \<Rightarrow> date t \<le> e | None \<Rightarrow> True))"

definition search_filter :: "(string \<Rightarrow> string \<Rightarrow> bool) \<Rightarrow> string option \<Rightarrow> transaction \<Rightarrow> bool" where
  "search_filter ilike s t =
     (case s of
        None \<Rightarrow> True
      | Some v \<Rightarrow>
          (if truthy s
           then (case description t of
                   None \<Rightarrow> False
                 | Some d \<Rightarrow> ilike (''%'' @ v @ ''%'') d)
           else True))"

definition matches ::
  "(string \<Rightarrow> string \<Rightarrow> bool) \<Rightarrow> string \<Rightarrow> FilterTransactionDto \<Rightarrow> transaction \<Rightarrow> bool" where
  "matches ilike uid f t =
     (userId t = uid
      \<and> (case type_f f of None \<Rightarrow> True | Some ty \<Rightarrow> type_txn t = ty)
      \<and> (if truthy (categoryId_f f) then categoryId_f f = Some (categoryId t) else True)
      \<and> date_filter (startDate f) (endDate f) t
      \<and> search_filter ilike (search f) t)"

text \<open>\<open>page = '1'\<close>, \<open>limit = '20'\<close> and the two \<open>parseInt\<close>.\<close>

definition pageNum :: "FilterTransactionDto \<Rightarrow> int" where
  "pageNum f = (case page f of None \<Rightarrow> 1 | Some p \<Rightarrow> p)"

definition limitNum :: "FilterTransactionDto \<Rightarrow> int" where
  "limitNum f = (case limit f of None \<Rightarrow> 20 | Some l \<Rightarrow> l)"

text \<open>\<open>Math.ceil(total / limitNum)\<close> for a count \<open>total\<close>: a division by zero gives
  \<open>Infinity\<close>, and \<open>NaN\<close> when the count is zero too.\<close>

definition Math_ceil_div :: "int \<Rightarrow> int \<Rightarrow> js_number" where
  "Math_ceil_div n l =
     (if l = 0 then (if n = 0 then NaN else Infinity)
      else Num \<lceil>real_of_int n / real_of_int l\<rceil>)"

text \<open>
  With a join and \<open>skip\<close> or \<open>take\<close> set, the query builder reads the page in two queries.
  The first takes the primary keys of the page: the matching rows
  \<open>ORDER BY date DESC, id ASC\<close>, \<open>OFFSET skip LIMIT take\<close>. The second reads the rows with
  these keys, \<open>ORDER BY date DESC\<close>.
\<close>

definition page_order :: "transaction list \<Rightarrow> transaction list" where
  "page_order rows = orderBy_DESC date (sort_key id_txn rows)"

definition page_ids :: "int \<Rightarrow> int \<Rightarrow> transaction list \<Rightarrow> uuid list" where
  "page_ids skip l rows = map id_txn (take (nat l) (drop (nat skip) (page_order rows)))"

text \<open>
  \<open>findAll\<close>. \<open>getManyAndCount\<close> gives the page and the count of all matching rows. The
  database refuses a negative \<open>OFFSET\<close> or \<open>LIMIT\<close>. With \<open>take\<close> and \<open>skip\<close> both zero the
  query builder sets neither and the one query returns every matching row.
\<close>

definition findAll ::
  "(string \<Rightarrow> string \<Rightarrow> bool) \<Rightarrow> store \<Rightarrow> string \<Rightarrow> FilterTransactionDto \<Rightarrow> error + page_result" where
  "findAll ilike db uid filters =
     (let skip = (pageNum filters - 1) * limitNum filters;
          rows = filter (matches ilike uid filters) (transactions db);
          total = int (length rows)
      in if limitNum filters < 0 \<or> skip < 0 then Inl QueryFailedError
         else Inr \<lparr> data = map (leftJoin db)
                             (orderBy_DESC date
                                (if limitNum filters = 0 then rows
                                 else filter (\<lambda>t. id_txn t \<in> set (page_ids skip (limitNum filters) rows))
                                        rows)),
                    total_r = total,
                    page_r = pageNum filters,
                    limit_r = limitNum filters,
                    totalPages = Math_ceil_div total (limitNum filters) \<rparr>)"

subsection \<open>findOne, create, update, remove\<close>

text \<open>\<open>findOne\<close>. The \<open>id\<close> is the text of the request; \<open>userId\<close> is the key of the
  authenticated user.\<close>

definition findOne :: "store \<Rightarrow> string \<Rightarrow> string \<Rightarrow> error + txn_row" where
  "findOne db i uid =
     (case uuid_in i of
        None \<Rightarrow> Inl QueryFailedError
      | Some u \<Rightarrow>
          (case find (\<lambda>t. id_txn t = u \<and> userId t = uid) (transactions db) of
             None \<Rightarrow> Inl NotFoundException
           | Some t \<Rightarrow> Inr (leftJoin db t)))"

text \<open>
  \<open>repository.save\<close>. The value of the join column \<open>category_id\<close> is read from the relation
  object when one is loaded, and from the \<open>categoryId\<close> property otherwise. An entity whose
  primary key is not in the table is inserted, with both audit columns set. For an entity
  whose key is in the table the columns are compared with the row: an \<open>amount\<close> property
  that holds a number differs from the decimal text of the row whatever its value. When no
  column differs, no \<open>UPDATE\<close> is issued. Otherwise the row is written and
  \<open>@UpdateDateColumn\<close> sets \<open>updatedAt\<close> to the time of the save. \<open>now\<close> is the clock.
\<close>

definition join_column :: "entity \<Rightarrow> string" where
  "join_column e = (case relation e of None \<Rightarrow> categoryId (columns e) | Some c \<Rightarrow> cat_id c)"

definition written :: "transaction \<Rightarrow> entity \<Rightarrow> transaction" where
  "written old e =
     old\<lparr> userId := userId (columns e), categoryId := join_column e,
          amount := amount (columns e), type_txn := type_txn (columns e),
          description := description (columns e), date := date (columns e) \<rparr>"

definition save :: "timestamp \<Rightarrow> store \<Rightarrow> entity \<Rightarrow> transaction \<times> store" where
  "save now db e =
     (case find (\<lambda>t. id_txn t = id_txn (columns e)) (transactions db) of
        None \<Rightarrow>
          (let r = (columns e)\<lparr>categoryId := join_column e, createdAt := now, updatedAt := now\<rparr>
           in (r, db\<lparr>transactions := transactions db @ [r]\<rparr>))
      | Some old \<Rightarrow>
          (if written old e = old \<and> \<not> amount_assigned e then (columns e, db)
           else ((columns e)\<lparr>updatedAt := now\<rparr>,
                 db\<lparr>transactions :=
                      map (\<lambda>t. if id_txn t = id_txn old then (written old e)\<lparr>updatedAt := now\<rparr> else t)
                        (transactions db)\<rparr>)))"

text \<open>\<open>create\<close>; \<open>new_id\<close> is the key that the database generates.\<close>

definition create ::
  "timestamp \<Rightarrow> uuid \<Rightarrow> store \<Rightarrow> string \<Rightarrow> CreateTransactionDto \<Rightarrow> transaction \<times> store" where
  "create now new_id db uid dto =
     save now db
       \<lparr> columns = \<lparr> id_txn = new_id, userId = uid, categoryId = categoryId_c dto,
                     amount = amount_c dto, type_txn = type_c dto,
                     description = description_c dto, date = date_c dto,
                     createdAt = now, updatedAt = now \<rparr>,
         relation = None, amount_assigned = True \<rparr>"

text \<open>\<open>Object.assign(transaction, updateTransactionDto)\<close> on the entity that \<open>findOne\<close>
  loaded with its relation: every property that the DTO has is copied over the entity's.\<close>

definition Object_assign :: "txn_row \<Rightarrow> UpdateTransactionDto \<Rightarrow> entity" where
  "Object_assign row dto =
     \<lparr> columns =
         (fst row)\<lparr> type_txn := (case type_u dto of None \<Rightarrow> type_txn (fst row) | Some v \<Rightarrow> v),
                    amount := (case amount_u dto of None \<Rightarrow> amount (fst row) | Some v \<Rightarrow> v),
                    date := (case date_u dto of None \<Rightarrow> date (fst row) | Some v \<Rightarrow> v),
                    categoryId :=
                      (case categoryId_u dto of None \<Rightarrow> categoryId (fst row) | Some v \<Rightarrow> v),
                    description :=
                      (case description_u dto of None \<Rightarrow> description (fst row)
                       | Some v \<Rightarrow> Some v) \<rparr>,
       relation = snd row,
       amount_assigned = (case amount_u dto of None \<Rightarrow> False | Some v \<Rightarrow> True) \<rparr>"

text \<open>\<open>update\<close> and \<open>remove\<close> return their outcome together with the store after the
  call; \<open>repository.remove\<close> deletes by primary key.\<close>

definition update ::
  "timestamp \<Rightarrow> store \<Rightarrow> string \<Rightarrow> string \<Rightarrow> UpdateTransactionDto
     \<Rightarrow> (error + transaction) \<times> store" where
  "update now db i uid dto =
     (case findOne db i uid of
        Inl e \<Rightarrow> (Inl e, db)
      | Inr row \<Rightarrow>
          (let saved = save now db (Object_assign row dto)
           in (Inr (fst saved), snd saved)))"


subsection \<open>exportToCsv\<close>

fun join :: "string \<Rightarrow> string list \<Rightarrow> string" where
  "join sep [] = []"
| "join sep [x] = x"
| "join sep (x # y # ys) = x @ sep @ join sep (y # ys)"

definition type_string :: "txn_type \<Rightarrow> string" where
  "type_string ty = (case ty of Income \<Rightarrow> ''income'' | Expense \<Rightarrow> ''expense'')"

definition csv_header :: string where
  "csv_header = ''Date,Type,Category,Amount,Description''"

text \<open>
  One row of the export. \<open>show_date\<close> and \<open>show_amount\<close> are the texts under which the
  driver delivers the \<open>date\<close> and the \<open>amount\<close> column. Reading \<open>category.name\<close> of a row
  that the join left without a category is a \<open>TypeError\<close>.
\<close>

definition csv_row :: "(date \<Rightarrow> string) \<Rightarrow> (amount \<Rightarrow> string) \<Rightarrow> txn_row \<Rightarrow> error + string" where
  "csv_row show_date show_amount r =
     (case snd r of
        None \<Rightarrow> Inl TypeError
      | Some c \<Rightarrow>
          Inr (join '',''
                 [show_date (date (fst r)),
                  type_string (type_txn (fst r)),
                  cat_name c,
                  show_amount (amount (fst r)),
                  [CHR 0x22] @ (case description (fst r) of None \<Rightarrow> [] | Some d \<Rightarrow> d) @ [CHR 0x22]]))"

text \<open>The \<open>forEach\<close> loop: \<open>csv += row + '\n'\<close>.\<close>

fun forEach_rows ::
  "(date \<Rightarrow> string) \<Rightarrow> (amount \<Rightarrow> string) \<Rightarrow> txn_row list \<Rightarrow> string \<Rightarrow> error + string" where
  "forEach_rows show_date show_amount [] csv = Inr csv"
| "forEach_rows show_date show_amount (r # rs) csv =
     (case csv_row show_date show_amount r of
        Inl e \<Rightarrow> Inl e
      | Inr row \<Rightarrow> forEach_rows show_date show_amount rs (csv @ row @ [CHR 0x0A]))"

definition exportToCsv ::
  "(string \<Rightarrow> string \<Rightarrow> bool) \<Rightarrow> (date \<Rightarrow> string) \<Rightarrow> (amount \<Rightarrow> string)
     \<Rightarrow> store \<Rightarrow> string \<Rightarrow> FilterTransactionDto \<Rightarrow> error + string" where
  "exportToCsv ilike show_date show_amount db uid filters =
     (case findAll ilike db uid (filters\<lparr>limit := Some 10000\<rparr>) of
        Inl e \<Rightarrow> Inl e
      | Inr r \<Rightarrow> forEach_rows show_date show_amount (data r) (csv_header @ [CHR 0x0A]))"

section \<open>DashboardService\<close>

record summary =
  totalIncome :: rat
  totalExpense :: rat
  netBalance :: rat
  transactionCount :: nat

text \<open>The date condition of \<open>getSummary\<close> and \<open>getCategoryBreakdown\<close>: one \<open>andWhere\<close>,
  under \<open>if (startDate && endDate)\<close>.\<close>

definition between_filter :: "date option \<Rightarrow> date option \<Rightarrow> transaction \<Rightarrow> bool" where
  "between_filter sd ed t =
     (case sd of
        Some s \<Rightarrow> (case ed of Some e \<Rightarrow> s \<le> date t \<and> date t \<le> e | None \<Rightarrow> True)
      | None \<Rightarrow> True)"

text \<open>\<open>getSummary\<close>: the two \<open>reduce\<close> calls add doubles, from \<open>0\<close>, in the order in which
  the query returned the rows; the subtraction is one of doubles too.\<close>

definition getSummary :: "store \<Rightarrow> string \<Rightarrow> date option \<Rightarrow> date option \<Rightarrow> summary" where
  "getSummary db uid sd ed =
     (let txs = filter (\<lambda>t. userId t = uid \<and> between_filter sd ed t) (transactions db);
          income = foldl (\<lambda>sum t. fl (sum + Number (amount t))) 0
                     (filter (\<lambda>t. type_txn t = Income) txs);
          expense = foldl (\<lambda>sum t. fl (sum + Number (amount t))) 0
                      (filter (\<lambda>t. type_txn t = Expense) txs)
      in \<lparr> totalIncome = income,
           totalExpense = expense,
           netBalance = fl (income - expense),
           transactionCount = length txs \<rparr>)"

datatype period = Daily | Weekly | Monthly

definition dateFormat :: "period option \<Rightarrow> string" where
  "dateFormat p =
     (case p of
        Some Daily \<Rightarrow> ''YYYY-MM-DD''
      | Some Weekly \<Rightarrow> ''YYYY-'' @ [CHR 0x22] @ ''W'' @ [CHR 0x22] @ ''WW''
      | _ \<Rightarrow> ''YYYY-MM'')"

text \<open>
  \<open>getTrends\<close>: \<open>GROUP BY period, type\<close> with \<open>SUM(amount)\<close>, which the database adds as
  decimals, ordered by period. \<open>to_char\<close> is the database's formatting function; the bucket
  labels are ordered as the database orders them, here any linear order. \<open>emit\<close> is the
  order in which the aggregation hands over the groups it has formed, which the query
  leaves to the engine; the sort by period keeps it among the groups of one period.
\<close>

definition getTrends ::
  "(string \<Rightarrow> date \<Rightarrow> 'p::linorder) \<Rightarrow> (('p \<times> txn_type) list \<Rightarrow> ('p \<times> txn_type) list)
     \<Rightarrow> store \<Rightarrow> string \<Rightarrow> period option \<Rightarrow> ('p \<times> txn_type \<times> amount) list" where
  "getTrends to_char emit db uid p =
     (let rows = filter (\<lambda>t. userId t = uid) (transactions db);
          key = (\<lambda>t. (to_char (dateFormat p) (date t), type_txn t));
          groups = map (\<lambda>k. (fst k, snd k, sum_list (map amount (filter (\<lambda>t. key t = k) rows))))
                       (emit (remdups (map key rows)))
      in sort_key fst groups)"

record breakdown_row =
  categoryId_b :: "string option"
  categoryName :: "string option"
  color :: "string option"
  icon :: "string option"
  total_b :: amount
  count_b :: nat

text \<open>The grouping columns of \<open>getCategoryBreakdown\<close>; all four are \<open>NULL\<close> for a row that
  the left join leaves without a category.\<close>

definition group_key ::
  "store \<Rightarrow> transaction \<Rightarrow> string option \<times> string option \<times> string option \<times> string option" where
  "group_key db t =
     (case snd (leftJoin db t) of
        None \<Rightarrow> (None, None, None, None)
      | Some c \<Rightarrow> (Some (cat_id c), Some (cat_name c), Some (cat_color c), Some (cat_icon c)))"

text \<open>\<open>getCategoryBreakdown\<close>; \<open>SUM(transaction.amount)\<close> is the database's exact sum of
  decimals.\<close>

definition getCategoryBreakdown ::
  "store \<Rightarrow> string \<Rightarrow> txn_type option \<Rightarrow> date option \<Rightarrow> date option \<Rightarrow> breakdown_row list" where
  "getCategoryBreakdown db uid ty sd ed =
     (let rows = filter (\<lambda>t. userId t = uid
                              \<and> (case ty of None \<Rightarrow> True | Some v \<Rightarrow> type_txn t = v)
                              \<and> between_filter sd ed t) (transactions db);
          groups = map (\<lambda>k. \<lparr> categoryId_b = fst k,
                               categoryName = fst (snd k),
                               color = fst (snd (snd k)),
                               icon = snd (snd (snd k)),
                               total_b = sum_list (map amount (filter (\<lambda>t. group_key db t = k) rows)),
                               count_b = length (filter (\<lambda>t. group_key db t = k) rows) \<rparr>)
                       (remdups (map (group_key db) rows))
      in orderBy_DESC total_b groups)"

section \<open>Predicates of the properties\<close>


text \<open>
  The constraints of the schema: \<open>pk_intact\<close> is the primary key of the transactions, no
  two rows with one id; \<open>fk_intact\<close> is their foreign key, every \<open>categoryId\<close> being the id
  of a category row.
\<close>

definition pk_intact :: "store \<Rightarrow> bool" where
  "pk_intact db = distinct (map id_txn (transactions db))"

definition fk_intact :: "store \<Rightarrow> bool" where
  "fk_intact db =
     list_all (\<lambda>t. list_ex (\<lambda>c. cat_id c = categoryId t) (categories db)) (transactions db)"

text \<open>
  The text of the export as the format is described: each line followed by a line feed, a
  data line being the five cells separated by commas with the description between double
  quotes.
\<close>

definition terminated_lines :: "string list \<Rightarrow> string" where
  "terminated_lines ls = concat (map (\<lambda>l. l @ [CHR 0x0A]) ls)"

definition spec_csv_line :: "(date \<Rightarrow> string) \<Rightarrow> (amount \<Rightarrow> string) \<Rightarrow> txn_row \<Rightarrow> string" where
  "spec_csv_line show_date show_amount r =
     show_date (date (fst r)) @ '','' @ type_string (type_txn (fst r)) @ '',''
       @ cat_name (the (snd r)) @ '','' @ show_amount (amount (fst r)) @ '',''
       @ [CHR 0x22] @ (case description (fst r) of None \<Rightarrow> [] | Some d \<Rightarrow> d) @ [CHR 0x22]"


text \<open>The exact sum of amounts, in units, as a rational number.\<close>

definition exact_sum :: "transaction list \<Rightarrow> rat" where
  "exact_sum ts = of_int (sum_list (map amount ts)) / 100"

text \<open>Every amount is a whole number of units, none negative, and they add up to at most
  \<open>2 ^ 53\<close> units.\<close>

definition whole_units :: "transaction list \<Rightarrow> bool" where
  "whole_units ts =
     (list_all (\<lambda>t. 0 \<le> amount t \<and> amount t mod 100 = 0) ts
      \<and> sum_list (map amount ts) \<le> 100 * 2 ^ 53)"

text \<open>The sum of a list of doubles, added one by one to the running sum \<open>s\<close>.\<close>

fun double_sum_from :: "rat \<Rightarrow> rat list \<Rightarrow> rat" where
  "double_sum_from s [] = s"
| "double_sum_from s (x # xs) = double_sum_from (fl (s + x)) xs"

section \<open>A small data set\<close>

text \<open>
  Two expenses and one income of user \<open>U\<close> in January 2026 (dates are days of that month),
  and one expense of user \<open>V\<close>.
\<close>

definition food_cat :: category where
  "food_cat = \<lparr> cat_id = ''food-cat'', cat_userId = ''U'', cat_name = ''Food'', cat_type = Expense,
                 cat_color = ''#EF4444'', cat_icon = ''utensils'', cat_isDefault = False \<rparr>"

definition salary_cat :: category where
  "salary_cat = \<lparr> cat_id = ''salary-cat'', cat_userId = ''U'', cat_name = ''Salary'',
                   cat_type = Income, cat_color = ''#059669'', cat_icon = ''dollar-sign'',
                   cat_isDefault = False \<rparr>"

definition lunch :: transaction where
  "lunch = \<lparr> id_txn = 1, userId = ''U'', categoryId = ''food-cat'', amount = 5000,
              type_txn = Expense, description = Some ''Lunch'', date = 8,
              createdAt = 1, updatedAt = 1 \<rparr>"

definition dinner :: transaction where
  "dinner = \<lparr> id_txn = 2, userId = ''U'', categoryId = ''food-cat'', amount = 3000,
               type_txn = Expense, description = None, date = 15,
               createdAt = 2, updatedAt = 2 \<rparr>"

definition salary :: transaction where
  "salary = \<lparr> id_txn = 3, userId = ''U'', categoryId = ''salary-cat'', amount = 100000,
               type_txn = Income, description = Some ''January'', date = 1,
               createdAt = 3, updatedAt = 3 \<rparr>"

definition rent :: transaction where
  "rent = \<lparr> id_txn = 4, userId = ''V'', categoryId = ''food-cat'', amount = 70000,
             type_txn = Expense, description = Some ''Rent'', date = 8,
             createdAt = 4, updatedAt = 4 \<rparr>"

definition demo_store :: store where
  "demo_store = \<lparr> transactions = [lunch, dinner, salary, rent],
                   categories = [food_cat, salary_cat] \<rparr>"

definition own_store :: store where
  "own_store = \<lparr> transactions = [lunch, dinner, salary], categories = [food_cat, salary_cat] \<rparr>"

text \<open>The text of the id of \<open>lunch\<close>, and a text that is no uuid.\<close>

definition lunch_id :: string where
  "lunch_id = ''00000000-0000-0000-0000-000000000001''"




definition category_patch :: UpdateTransactionDto where
  "category_patch = \<lparr> type_u = None, amount_u = None, date_u = None,
                       categoryId_u = Some ''salary-cat'', description_u = None \<rparr>"

definition no_filters :: FilterTransactionDto where
  "no_filters = \<lparr> type_f = None, categoryId_f = None, startDate = None, endDate = None,
                   search = None, page = None, limit = None \<rparr>"

text \<open>Two expenses of one day, created one after the other; the database gave the greater
  id to the first.\<close>

definition tie_dto :: CreateTransactionDto where
  "tie_dto = \<lparr> type_c = Expense, amount_c = 400, date_c = 8, categoryId_c = ''food-cat'',
                description_c = None \<rparr>"

definition early :: transaction where
  "early = \<lparr> id_txn = 2, userId = ''U'', categoryId = ''food-cat'', amount = 400,
              type_txn = Expense, description = None, date = 8, createdAt = 1, updatedAt = 1 \<rparr>"

definition late :: transaction where
  "late = \<lparr> id_txn = 1, userId = ''U'', categoryId = ''food-cat'', amount = 400,
             type_txn = Expense, description = None, date = 8, createdAt = 2, updatedAt = 2 \<rparr>"

definition no_rows :: store where
  "no_rows = \<lparr> transactions = [], categories = [food_cat, salary_cat] \<rparr>"

definition tie_store :: store where
  "tie_store = \<lparr> transactions = [early, late], categories = [food_cat, salary_cat] \<rparr>"

text \<open>Two expenses of 0.10 and 0.20 in one category, and an income of 0.30.\<close>

definition dime :: transaction where
  "dime = \<lparr> id_txn = 1, userId = ''U'', categoryId = ''food-cat'', amount = 10,
             type_txn = Expense, description = None, date = 8, createdAt = 1, updatedAt = 1 \<rparr>"

definition two_dimes :: transaction where
  "two_dimes = \<lparr> id_txn = 2, userId = ''U'', categoryId = ''food-cat'', amount = 20,
                  type_txn = Expense, description = None, date = 9, createdAt = 2, updatedAt = 2 \<rparr>"

definition three_dimes :: transaction where
  "three_dimes = \<lparr> id_txn = 3, userId = ''U'', categoryId = ''salary-cat'', amount = 30,
                    type_txn = Income, description = None, date = 9, createdAt = 3, updatedAt = 3 \<rparr>"

definition cents_store :: store where
  "cents_store = \<lparr> transactions = [dime, two_dimes, three_dimes],
                    categories = [food_cat, salary_cat] \<rparr>"

text \<open>The texts of the dates and of the amounts of the data set.\<close>

definition january :: "date \<Rightarrow> string" where
  "january d = (if d = 1 then ''2026-01-01'' else if d = 8 then ''2026-01-08''
                else if d = 15 then ''2026-01-15'' else ''2026-01-31'')"

definition money :: "amount \<Rightarrow> string" where
  "money a = (if a = 5000 then ''50.00'' else if a = 3000 then ''30.00''
              else if a = 100000 then ''1000.00'' else ''0.00'')"

lemmas demo = demo_store_def own_store_def lunch_def dinner_def salary_def rent_def
  food_cat_def salary_cat_def no_filters_def

lemmas tie = tie_store_def no_rows_def early_def late_def tie_dto_def food_cat_def salary_cat_def
  no_filters_def

lemmas cents = cents_store_def dime_def two_dimes_def three_dimes_def food_cat_def salary_cat_def

section \<open>Auxiliary facts\<close>

subsection \<open>Rounding\<close>

lemma fl_0: "fl 0 = 0" by (simp add: fl_def)

lemma halvings_bounds: "1 \<le> x \<Longrightarrow> 2 ^ halvings x \<le> x \<and> x < 2 ^ Suc (halvings x)"
proof (induction x rule: halvings.induct)
  case (1 x)
  show ?case
  proof (cases "2 \<le> x")
    case True
    then have "1 \<le> x / 2" by simp
    with "1.IH" [OF True] have "2 ^ halvings (x / 2) \<le> x / 2 \<and> x / 2 < 2 ^ Suc (halvings (x / 2))"
      by blast
    moreover have "halvings x = Suc (halvings (x / 2))"
      using True by (subst halvings.simps) simp
    ultimately show ?thesis by simp
  next
    case False
    then have "halvings x = 0" by (subst halvings.simps) simp
    with False "1.prems" show ?thesis by simp
  qed
qed

lemma round_half_even_of_int: "round_half_even (of_int m) = m"
  by (simp add: round_half_even_def)

lemma fl_exact:
  assumes "x \<noteq> 0" and "x / pow2 (exponent x - 52) = of_int m"
  shows "fl x = x"
proof -
  have p: "pow2 (exponent x - 52) \<noteq> 0" by (simp add: pow2_def)
  from assms(2) p have "of_int m * pow2 (exponent x - 52) = x"
    by (simp add: field_simps)
  then show ?thesis
    using assms by (simp add: fl_def Let_def round_half_even_of_int)
qed

lemma fl_of_int:
  assumes "\<bar>n\<bar> \<le> 2 ^ 53"
  shows "fl (of_int n) = of_int n"
proof (cases "n = 0")
  case True
  then show ?thesis by (simp add: fl_0)
next
  case False
  let ?x = "of_int n :: rat"
  let ?a = "\<bar>?x\<bar>"
  have a1: "1 \<le> ?a" using False by (simp flip: of_int_abs add: )
  let ?h = "halvings ?a"
  have e: "exponent ?x = int ?h" using a1 by (simp add: exponent_def)
  from halvings_bounds [OF a1] have lo: "2 ^ ?h \<le> ?a" and hi: "?a < 2 ^ Suc ?h" by simp_all
  have a53: "?a \<le> 2 ^ 53"
  proof -
    have "of_int \<bar>n\<bar> \<le> (of_int (2 ^ 53) :: rat)" using assms by (simp only: of_int_le_iff)
    then show ?thesis by simp
  qed
  have h53: "?h \<le> 53"
  proof (rule ccontr)
    assume "\<not> ?h \<le> 53"
    then have "54 \<le> ?h" by simp
    then have "(2::rat) ^ 54 \<le> 2 ^ ?h" by (intro power_increasing) simp_all
    with lo a53 show False by simp
  qed
  have "\<exists>m. ?x / pow2 (exponent ?x - 52) = of_int m"
  proof (cases "?h \<le> 52")
    case True
    have "pow2 (int ?h - 52) = 1 / 2 ^ (52 - ?h)"
    proof (cases "?h = 52")
      case True
      then show ?thesis by (simp add: pow2_def)
    next
      case False
      with True have "?h < 52" by simp
      then have "nat (52 - int ?h) = 52 - ?h" by simp
      with \<open>?h < 52\<close> show ?thesis by (simp add: pow2_def)
    qed
    then have "?x / pow2 (exponent ?x - 52) = of_int (n * 2 ^ (52 - ?h))"
      by (simp add: e)
    then show ?thesis by blast
  next
    case False
    with h53 have h: "?h = 53" by simp
    with lo a53 have "?a = 2 ^ 53" by simp
    then have "of_int \<bar>n\<bar> = (of_int (2 ^ 53) :: rat)" by simp
    then have n: "\<bar>n\<bar> = 2 ^ 53" by (simp only: of_int_eq_iff)
    have "pow2 (int ?h - 52) = 2" using h by (simp add: pow2_def)
    moreover have "n = 2 * (n div 2)"
    proof -
      from n have "n = 9007199254740992 \<or> n = - 9007199254740992" by (simp add: abs_if split: if_splits)
      then show ?thesis by presburger
    qed
    ultimately have "?x / pow2 (exponent ?x - 52) = of_int (n div 2)"
      by (simp add: e)
    then show ?thesis by blast
  qed
  then obtain m where "?x / pow2 (exponent ?x - 52) = of_int m" ..
  moreover have "?x \<noteq> 0" using False by simp
  ultimately show ?thesis by (rule fl_exact [rotated])
qed

lemma fl_numeral: "numeral k \<le> (2 ^ 53 :: int) \<Longrightarrow> fl (numeral k) = numeral k"
  using fl_of_int [of "numeral k"] by simp

lemma fl_neg_numeral: "numeral k \<le> (2 ^ 53 :: int) \<Longrightarrow> fl (- numeral k) = - numeral k"
  using fl_of_int [of "- numeral k"] by simp

lemma Number_numeral:
  "Number 5000 = 50" "Number 3000 = 30" "Number 100000 = 1000"
  by (simp_all add: Number_def fl_numeral)

subsection \<open>Lists\<close>

lemma length_filter_txn_type:
  "length (filter (\<lambda>t. type_txn t = Income) xs) + length (filter (\<lambda>t. type_txn t = Expense) xs)
     = length xs"
proof (induction xs)
  case Nil
  show ?case by simp
next
  case (Cons x xs)
  then show ?case by (cases "type_txn x") simp_all
qed

lemma find_None_list_ex: "find P xs = None \<longleftrightarrow> \<not> list_ex P xs"
  by (auto simp: find_None_iff list_ex_iff)



subsection \<open>Ordering\<close>

lemma length_orderBy_DESC: "length (orderBy_DESC k xs) = length xs"
  by (simp add: orderBy_DESC_def)

lemma set_orderBy_DESC: "set (orderBy_DESC k xs) = set xs"
  by (simp add: orderBy_DESC_def)

lemma mset_orderBy_DESC: "mset (orderBy_DESC k xs) = mset xs"
  by (simp add: orderBy_DESC_def)

lemma sorted_orderBy_DESC: "sorted_wrt (\<lambda>a b. k b \<le> k a) (orderBy_DESC k xs)"
proof -
  have "sorted (map (\<lambda>x. - k x) (orderBy_DESC k xs))"
    by (simp add: orderBy_DESC_def)
  then show ?thesis by (simp add: sorted_map sorted_wrt_iff_nth_less)
qed

lemma sum_list_orderBy_DESC: "sum_list (map g (orderBy_DESC k xs)) = sum_list (map g xs)"
  for g :: "'a \<Rightarrow> int"
proof -
  have "mset (map g (orderBy_DESC k xs)) = mset (map g xs)"
    by (simp add: mset_orderBy_DESC)
  then show ?thesis by (metis sum_mset_sum_list)
qed

subsection \<open>Grouping\<close>

text \<open>The groups of a \<open>GROUP BY\<close> partition the rows: the sums of the groups add up to the
  sum of all rows.\<close>

lemma sum_list_groups:
  fixes g :: "'a \<Rightarrow> int"
  assumes "distinct ks" and "set (map f xs) \<subseteq> set ks"
  shows "(\<Sum>k\<leftarrow>ks. sum_list (map g (filter (\<lambda>x. f x = k) xs))) = sum_list (map g xs)"
  using assms(2)
proof (induction xs)
  case Nil
  show ?case by simp
next
  case (Cons x xs)
  have in_ks: "f x \<in> set ks" using Cons.prems by simp
  have delta: "(\<Sum>k\<leftarrow>ks. if f x = k then g x else 0) = g x"
    using \<open>distinct ks\<close> in_ks
  proof (induction ks)
    case Nil
    then show ?case by simp
  next
    case (Cons a ks)
    show ?case
    proof (cases "f x = a")
      case True
      with Cons.prems have "f x \<notin> set ks" by simp
      then have "(\<Sum>k\<leftarrow>ks. if f x = k then g x else 0) = 0"
        by (induction ks) auto
      with True show ?thesis by simp
    next
      case False
      with Cons show ?thesis by simp
    qed
  qed
  have "(\<Sum>k\<leftarrow>ks. sum_list (map g (filter (\<lambda>y. f y = k) (x # xs))))
      = (\<Sum>k\<leftarrow>ks. (if f x = k then g x else 0) + sum_list (map g (filter (\<lambda>y. f y = k) xs)))"
    by (rule arg_cong [where f = sum_list], rule map_cong) simp_all
  also have "\<dots> = (\<Sum>k\<leftarrow>ks. if f x = k then g x else 0)
                  + (\<Sum>k\<leftarrow>ks. sum_list (map g (filter (\<lambda>y. f y = k) xs)))"
    by (simp add: sum_list_addf)
  also have "\<dots> = g x + sum_list (map g xs)"
    using Cons.IH Cons.prems delta by simp
  finally show ?case by simp
qed

lemma sum_list_remdups_groups:
  fixes g :: "'a \<Rightarrow> int"
  shows "(\<Sum>k\<leftarrow>remdups (map f xs). sum_list (map g (filter (\<lambda>x. f x = k) xs)))
           = sum_list (map g xs)"
  by (rule sum_list_groups) simp_all

subsection \<open>Pagination\<close>

lemma matches_page_limit [simp]:
  "matches ilike uid (f\<lparr>page := p\<rparr>) = matches ilike uid f"
  "matches ilike uid (f\<lparr>limit := l\<rparr>) = matches ilike uid f"
  by (simp_all add: matches_def fun_eq_iff)

lemma pageNum_limitNum [simp]:
  "pageNum (f\<lparr>page := Some p\<rparr>) = p" "pageNum (f\<lparr>limit := l\<rparr>) = pageNum f"
  "limitNum (f\<lparr>limit := Some n\<rparr>) = n" "limitNum (f\<lparr>page := q\<rparr>) = limitNum f"
  by (simp_all add: pageNum_def limitNum_def)

lemma mset_page_order: "mset (page_order rows) = mset rows"
  by (simp add: page_order_def mset_orderBy_DESC)

lemma length_page_order: "length (page_order rows) = length rows"
  by (simp add: page_order_def length_orderBy_DESC)

lemma set_page_order: "set (page_order rows) = set rows"
  by (simp add: page_order_def set_orderBy_DESC)

lemma sorted_wrt_filter_imp:
  "sorted_wrt R (filter P xs) \<Longrightarrow> sorted_wrt (\<lambda>a b. P a \<and> P b \<longrightarrow> R a b) xs"
  by (induction xs) (auto split: if_splits)

text \<open>The first query orders by date, latest first, and among the rows of one date by id.\<close>

lemma sorted_page_order:
  "sorted_wrt (\<lambda>a b. date b < date a \<or> date a = date b \<and> id_txn a \<le> id_txn b) (page_order rows)"
proof -
  let ?s = "sort_key id_txn rows"
  have d: "sorted (map (\<lambda>x. - date x) (page_order rows))"
    by (simp add: page_order_def orderBy_DESC_def)
  have st: "filter (\<lambda>y. - date y = k) (page_order rows) = filter (\<lambda>y. - date y = k) ?s" for k
    unfolding page_order_def orderBy_DESC_def by (rule sort_key_stable)
  have ids: "sorted (map id_txn (filter (\<lambda>y. - date y = k) (page_order rows)))" for k
    unfolding st by (simp add: sorted_filter)
  show ?thesis
    unfolding sorted_wrt_iff_nth_less
  proof (intro allI impI)
    fix i j assume ij: "i < j" "j < length (page_order rows)"
    let ?p = "page_order rows"
    from d ij have le: "date (?p ! j) \<le> date (?p ! i)"
      by (simp add: sorted_iff_nth_mono)
    show "date (?p ! j) < date (?p ! i) \<or> date (?p ! i) = date (?p ! j) \<and> id_txn (?p ! i) \<le> id_txn (?p ! j)"
    proof (cases "date (?p ! j) = date (?p ! i)")
      case False
      with le show ?thesis by simp
    next
      case True
      let ?k = "- date (?p ! i)"
      let ?P = "\<lambda>y. - date y = ?k"
      have "sorted_wrt (\<lambda>a b. id_txn a \<le> id_txn b) (filter ?P ?p)"
        using ids [of ?k] by (simp only: sorted_map)
      then have "sorted_wrt (\<lambda>a b. ?P a \<and> ?P b \<longrightarrow> id_txn a \<le> id_txn b) ?p"
        by (rule sorted_wrt_filter_imp)
      with ij have "?P (?p ! i) \<and> ?P (?p ! j) \<longrightarrow> id_txn (?p ! i) \<le> id_txn (?p ! j)"
        by (simp add: sorted_wrt_iff_nth_less)
      with True show ?thesis by simp
    qed
  qed
qed

lemma findAll_paged:
  assumes "0 < pageNum f" and "0 < limitNum f"
  shows "findAll ilike db uid f =
     Inr \<lparr> data = map (leftJoin db)
                    (orderBy_DESC date
                       (filter (\<lambda>t. id_txn t \<in> set (page_ids ((pageNum f - 1) * limitNum f) (limitNum f)
                                                      (filter (matches ilike uid f) (transactions db))))
                          (filter (matches ilike uid f) (transactions db)))),
           total_r = int (length (filter (matches ilike uid f) (transactions db))),
           page_r = pageNum f, limit_r = limitNum f,
           totalPages = Num \<lceil>real_of_int (int (length (filter (matches ilike uid f) (transactions db))))
                               / real_of_int (limitNum f)\<rceil> \<rparr>"
proof -
  have "0 \<le> (pageNum f - 1) * limitNum f" using assms by simp
  then have "\<not> (pageNum f - 1) * limitNum f < 0" by (simp only: not_less)
  moreover have "\<not> limitNum f < 0" "limitNum f \<noteq> 0" using assms by simp_all
  ultimately show ?thesis
    unfolding findAll_def Let_def Math_ceil_div_def by simp
qed

lemma ceiling_div_bounds:
  fixes n l :: int
  assumes "0 < l"
  shows "n \<le> \<lceil>real_of_int n / real_of_int l\<rceil> * l"
    and "(\<lceil>real_of_int n / real_of_int l\<rceil> - 1) * l < n"
proof -
  let ?c = "\<lceil>real_of_int n / real_of_int l\<rceil>"
  have lpos: "0 < real_of_int l" using assms by simp
  have "real_of_int n / real_of_int l \<le> real_of_int ?c" by (rule le_of_int_ceiling)
  then have "real_of_int n \<le> real_of_int ?c * real_of_int l"
    using pos_divide_le_eq [OF lpos, of "real_of_int n" "real_of_int ?c"] by blast
  then have "real_of_int n \<le> real_of_int (?c * l)" by simp
  then show "n \<le> ?c * l" by (simp only: of_int_le_iff)
  have "real_of_int ?c - 1 < real_of_int n / real_of_int l" by linarith
  then have "(real_of_int ?c - 1) * real_of_int l < real_of_int n"
    using pos_less_divide_eq [OF lpos, of "real_of_int ?c - 1" "real_of_int n"] by blast
  then have "real_of_int ((?c - 1) * l) < real_of_int n" by simp
  then show "(?c - 1) * l < n" by (simp only: of_int_less_iff)
qed

lemma page_ids_beyond: "int (length rows) \<le> skip \<Longrightarrow> page_ids skip l rows = []"
  by (simp add: page_ids_def length_page_order le_nat_iff)

lemma page_ids_all:
  "length rows \<le> nat l \<Longrightarrow> set (page_ids 0 l rows) = id_txn ` set rows"
  by (simp add: page_ids_def length_page_order set_page_order)

text \<open>Under the primary key, the rows with the keys of a window are the rows of the window.\<close>

lemma mset_filter_keys:
  assumes "distinct (map k rows)" and "distinct W" and "set W \<subseteq> set rows"
  shows "mset (filter (\<lambda>t. k t \<in> k ` set W) rows) = mset W"
proof -
  have inj: "inj_on k (set rows)" and dr: "distinct rows"
    using assms(1) by (simp_all add: distinct_map)
  have "filter (\<lambda>t. k t \<in> k ` set W) rows = filter (\<lambda>t. t \<in> set W) rows"
  proof (rule filter_cong [OF refl])
    fix t assume t: "t \<in> set rows"
    show "(k t \<in> k ` set W) = (t \<in> set W)"
    proof
      assume "k t \<in> k ` set W"
      then obtain w where w: "w \<in> set W" "k w = k t" by (auto simp: image_iff)
      with assms(3) have "w \<in> set rows" by blast
      with inj t w(2) have "w = t" by (blast dest: inj_onD)
      with w(1) show "t \<in> set W" by simp
    next
      assume "t \<in> set W"
      then show "k t \<in> k ` set W" by blast
    qed
  qed
  moreover have "mset (filter (\<lambda>t. t \<in> set W) rows) = mset W"
  proof (rule iffD1 [OF set_eq_iff_mset_eq_distinct])
    show "distinct (filter (\<lambda>t. t \<in> set W) rows)" using dr by simp
    show "distinct W" by (rule assms(2))
    show "set (filter (\<lambda>t. t \<in> set W) rows) = set W" using assms(3) by auto
  qed
  ultimately show ?thesis by simp
qed

lemma mset_selected:
  assumes "distinct (map id_txn rows)"
  shows "mset (filter (\<lambda>t. id_txn t \<in> set (page_ids skip l rows)) rows)
           = mset (take (nat l) (drop (nat skip) (page_order rows)))"
proof -
  let ?W = "take (nat l) (drop (nat skip) (page_order rows))"
  have dr: "distinct rows" using assms by (simp add: distinct_map)
  have "distinct (page_order rows)"
    using dr mset_eq_imp_distinct_iff [OF mset_page_order [of rows]] by blast
  then have dW: "distinct ?W" by simp
  have "set ?W \<subseteq> set (drop (nat skip) (page_order rows))" by (rule set_take_subset)
  also have "\<dots> \<subseteq> set (page_order rows)" by (rule set_drop_subset)
  also have "\<dots> = set rows" by (rule set_page_order)
  finally have sub: "set ?W \<subseteq> set rows" .
  have ids: "set (page_ids skip l rows) = id_txn ` set ?W" by (simp add: page_ids_def)
  show ?thesis
    unfolding ids by (rule mset_filter_keys [OF assms dW sub])
qed

lemma length_selected:
  assumes "distinct (map id_txn rows)"
  shows "length (filter (\<lambda>t. id_txn t \<in> set (page_ids skip l rows)) rows)
           = min (nat l) (length rows - nat skip)"
proof -
  have "length (filter (\<lambda>t. id_txn t \<in> set (page_ids skip l rows)) rows)
      = size (mset (filter (\<lambda>t. id_txn t \<in> set (page_ids skip l rows)) rows))"
    by (simp only: size_mset)
  also have "\<dots> = length (take (nat l) (drop (nat skip) (page_order rows)))"
    by (simp only: mset_selected [OF assms] size_mset)
  finally show ?thesis by (simp add: length_page_order min.commute)
qed

lemma pk_matching: "pk_intact db \<Longrightarrow> distinct (map id_txn (filter P (transactions db)))"
  by (simp add: pk_intact_def distinct_map_filter)

lemma Math_ceil_div_eval:
  "Math_ceil_div n l = (if l = 0 then (if n = 0 then NaN else Infinity) else Num (- (- n div l)))"
  by (simp only: Math_ceil_div_def ceiling_divide_eq_div)

lemmas eval_findAll = findAll_def Math_ceil_div_eval pageNum_def limitNum_def page_ids_def
  page_order_def matches_def date_filter_def search_filter_def truthy_def orderBy_DESC_def
  leftJoin_def

lemma findAll_data:
  assumes "findAll ilike db uid f = Inr r"
  shows "\<exists>S. set S \<subseteq> set (filter (matches ilike uid f) (transactions db))
           \<and> data r = map (leftJoin db) (orderBy_DESC date S)"
proof -
  let ?M = "filter (matches ilike uid f) (transactions db)"
  let ?S = "if limitNum f = 0 then ?M
            else filter (\<lambda>t. id_txn t \<in> set (page_ids ((pageNum f - 1) * limitNum f) (limitNum f) ?M)) ?M"
  have "data r = map (leftJoin db) (orderBy_DESC date ?S)"
    using assms unfolding findAll_def Let_def
    by (cases "limitNum f < 0 \<or> (pageNum f - 1) * limitNum f < 0") (auto simp del: filter_filter)
  moreover have "set ?S \<subseteq> set ?M" by auto
  ultimately show ?thesis by blast
qed

subsection \<open>Export\<close>

lemma csv_row_joined:
  "snd r \<noteq> None \<Longrightarrow> csv_row sd sa r = Inr (spec_csv_line sd sa r)"
  by (cases "snd r") (simp_all add: csv_row_def spec_csv_line_def)

lemma forEach_rows_joined:
  "list_all (\<lambda>r. snd r \<noteq> None) rs \<Longrightarrow>
     forEach_rows sd sa rs csv = Inr (csv @ terminated_lines (map (spec_csv_line sd sa) rs))"
proof (induction rs arbitrary: csv)
  case Nil
  show ?case by (simp add: terminated_lines_def)
next
  case (Cons r rs)
  then have "csv_row sd sa r = Inr (spec_csv_line sd sa r)" by (simp add: csv_row_joined)
  with Cons show ?case by (simp add: terminated_lines_def)
qed

lemma leftJoin_fk:
  assumes "fk_intact db" and "t \<in> set (transactions db)"
  shows "snd (leftJoin db t) \<noteq> None"
proof -
  from assms have "list_ex (\<lambda>c. cat_id c = categoryId t) (categories db)"
    by (simp add: fk_intact_def list_all_iff)
  then show ?thesis
    using find_None_list_ex [of "\<lambda>c. cat_id c = categoryId t" "categories db"]
    by (simp add: leftJoin_def)
qed

lemma joined_fk:
  assumes "fk_intact db"
  shows "list_all (\<lambda>r. snd r \<noteq> None)
           (map (leftJoin db) (orderBy_DESC date (filter Q (filter P (transactions db)))))"
  using leftJoin_fk [OF assms] by (auto simp: list_all_iff set_orderBy_DESC)

lemma findAll_export:
  assumes "0 < pageNum f"
  shows "findAll ilike db uid (f\<lparr>limit := Some 10000\<rparr>) =
     Inr \<lparr> data = map (leftJoin db)
                    (orderBy_DESC date
                       (filter (\<lambda>t. id_txn t \<in> set (page_ids ((pageNum f - 1) * 10000) 10000
                                                      (filter (matches ilike uid f) (transactions db))))
                          (filter (matches ilike uid f) (transactions db)))),
           total_r = int (length (filter (matches ilike uid f) (transactions db))),
           page_r = pageNum f, limit_r = 10000,
           totalPages = Num \<lceil>real_of_int (int (length (filter (matches ilike uid f) (transactions db))))
                               / real_of_int 10000\<rceil> \<rparr>"
  using findAll_paged [of "f\<lparr>limit := Some 10000\<rparr>" ilike db uid] assms by simp

lemma export_forEach:
  assumes "0 < pageNum f"
  shows "exportToCsv ilike sd sa db uid f =
     forEach_rows sd sa
       (map (leftJoin db)
          (orderBy_DESC date
             (filter (\<lambda>t. id_txn t \<in> set (page_ids ((pageNum f - 1) * 10000) 10000
                                            (filter (matches ilike uid f) (transactions db))))
                (filter (matches ilike uid f) (transactions db)))))
       (csv_header @ [CHR 0x0A])"
  unfolding exportToCsv_def by (simp only: findAll_export [OF assms]) simp

lemma export_window:
  assumes "0 < pageNum f" and "fk_intact db"
  shows "exportToCsv ilike sd sa db uid f =
     Inr (terminated_lines (csv_header # map (spec_csv_line sd sa)
       (map (leftJoin db)
          (orderBy_DESC date
             (filter (\<lambda>t. id_txn t \<in> set (page_ids ((pageNum f - 1) * 10000) 10000
                                            (filter (matches ilike uid f) (transactions db))))
                (filter (matches ilike uid f) (transactions db)))))))"
  using forEach_rows_joined [OF joined_fk [OF assms(2)], of sd sa _ _ "csv_header @ [CHR 0x0A]"]
  by (simp add: export_forEach [OF assms(1)] terminated_lines_def)

lemma filter_all_ids: "filter (\<lambda>t. id_txn t \<in> id_txn ` set rows) rows = rows"
  by (induction rows) auto

subsection \<open>Ownership\<close>

lemma filter_owner_first:
  "filter (\<lambda>t. userId t = uid \<and> Q t) xs = filter Q (filter (\<lambda>t. userId t = uid) xs)"
  by (induction xs) auto

lemma matches_owner:
  "filter (matches ilike uid f) xs = filter (matches ilike uid f) (filter (\<lambda>t. userId t = uid) xs)"
  by (induction xs) (auto simp: matches_def)

subsection \<open>Sums of doubles\<close>

lemma foldl_double_sum:
  "foldl (\<lambda>sum t. fl (sum + Number (amount t))) s ts
     = double_sum_from s (map (\<lambda>t. Number (amount t)) ts)"
  by (induction ts arbitrary: s) simp_all

lemma sum_list_nonneg_amount:
  "list_all (\<lambda>t. 0 \<le> amount t \<and> amount t mod 100 = 0) ts \<Longrightarrow> 0 \<le> sum_list (map amount ts)"
  by (induction ts) auto

lemma double_sum_whole:
  assumes "list_all (\<lambda>t. 0 \<le> amount t \<and> amount t mod 100 = 0) ts" and "0 \<le> a"
    and "a + sum_list (map amount ts) div 100 \<le> 2 ^ 53"
  shows "double_sum_from (of_int a) (map (\<lambda>t. Number (amount t)) ts)
           = of_int (a + sum_list (map amount ts) div 100)"
  using assms
proof (induction ts arbitrary: a)
  case Nil
  then show ?case by simp
next
  case (Cons t ts)
  from Cons.prems(1) have t: "0 \<le> amount t" "amount t mod 100 = 0"
    and ts: "list_all (\<lambda>t. 0 \<le> amount t \<and> amount t mod 100 = 0) ts" by simp_all
  define u where "u = amount t div 100"
  have au: "amount t = 100 * u"
    using div_mult_mod_eq [of "amount t" 100] t(2) unfolding u_def by simp
  have u0: "0 \<le> u" using t(1) au by simp
  have s0: "0 \<le> sum_list (map amount ts)" by (rule sum_list_nonneg_amount [OF ts])
  have split: "sum_list (map amount (t # ts)) div 100 = u + sum_list (map amount ts) div 100"
    by (simp add: au)
  have s0d: "0 \<le> sum_list (map amount ts) div 100" using s0 by (simp add: pos_imp_zdiv_nonneg_iff)
  have bound: "a + u + sum_list (map amount ts) div 100 \<le> 2 ^ 53"
    using Cons.prems(3) unfolding split by simp
  have "\<bar>u\<bar> \<le> 2 ^ 53" using u0 bound s0d Cons.prems(2) by simp
  then have n: "Number (amount t) = of_int u"
    using fl_of_int [of u] by (simp add: Number_def au)
  have "\<bar>a + u\<bar> \<le> 2 ^ 53" using u0 bound s0d Cons.prems(2) by simp
  then have step: "fl (of_int a + Number (amount t)) = of_int (a + u)"
    using fl_of_int [of "a + u"] by (simp add: n)
  have ih: "double_sum_from (of_int (a + u)) (map (\<lambda>t. Number (amount t)) ts)
      = of_int (a + u + sum_list (map amount ts) div 100)"
    using Cons.IH [OF ts, of "a + u"] u0 Cons.prems(2) bound by simp
  have "double_sum_from (of_int a) (map (\<lambda>t. Number (amount t)) (t # ts))
      = double_sum_from (fl (of_int a + Number (amount t))) (map (\<lambda>t. Number (amount t)) ts)"
    by simp
  also have "\<dots> = of_int (a + u + sum_list (map amount ts) div 100)"
    by (simp only: step ih)
  also have "a + u + sum_list (map amount ts) div 100 = a + sum_list (map amount (t # ts)) div 100"
    by (simp only: split add.assoc)
  finally show ?case .
qed

lemma whole_units_sum:
  assumes "whole_units ts"
  shows "double_sum_from 0 (map (\<lambda>t. Number (amount t)) ts) = exact_sum ts"
    and "\<exists>n. exact_sum ts = of_int n \<and> 0 \<le> n \<and> n \<le> 2 ^ 53"
proof -
  from assms have la: "list_all (\<lambda>t. 0 \<le> amount t \<and> amount t mod 100 = 0) ts"
    and b: "sum_list (map amount ts) \<le> 100 * 2 ^ 53" by (simp_all add: whole_units_def)
  have dv: "sum_list (map amount ts) mod 100 = 0" using la by (induction ts) (auto simp: mod_add_eq [symmetric])
  define n where "n = sum_list (map amount ts) div 100"
  have sn: "sum_list (map amount ts) = 100 * n"
    using div_mult_mod_eq [of "sum_list (map amount ts)" 100] dv unfolding n_def by simp
  have n0: "0 \<le> n" using sum_list_nonneg_amount [OF la] sn by simp
  have n53: "n \<le> 2 ^ 53" using b sn by simp
  have ex: "exact_sum ts = of_int n" by (simp add: exact_sum_def sn)
  from double_sum_whole [OF la, of 0] n53 show "double_sum_from 0 (map (\<lambda>t. Number (amount t)) ts) = exact_sum ts"
    by (simp add: ex n_def)
  from ex n0 n53 show "\<exists>n. exact_sum ts = of_int n \<and> 0 \<le> n \<and> n \<le> 2 ^ 53" by blast
qed

lemmas eval_summary = getSummary_def between_filter_def Number_numeral fl_numeral
  fl_neg_numeral fl_0

lemma cents_summary:
  "getSummary cents_store ''U'' None None
     = \<lparr> totalIncome = 5404319552844595 / 18014398509481984,
         totalExpense = 1351079888211149 / 4503599627370496,
         netBalance = - 1 / 18014398509481984,
         transactionCount = 3 \<rparr>"
  by code_simp

lemma fl_three_tenths: "fl (3 / 10) = 5404319552844595 / 18014398509481984"
  by code_simp

subsection \<open>Lookup by key and owner\<close>







lemma uuid_in_lunch_id: "uuid_in lunch_id = Some 1"
  by (simp add: uuid_in_def lunch_id_def uuid_bytes.simps hex_digit_def Let_def)







lemmas eval_update = update_def findOne_def save_def written_def join_column_def Object_assign_def
  leftJoin_def Let_def

lemma category_patch_not_written:
  "update 9 demo_store lunch_id ''U'' category_patch
     = (Inr (lunch\<lparr>categoryId := ''salary-cat''\<rparr>), demo_store)"
  by (simp add: eval_update uuid_in_lunch_id category_patch_def demo)

section \<open>Ownership scoping\<close>

text \<open>
  C1. Every row that \<open>findAll\<close> returns for user \<open>uid\<close> has \<open>userId = uid\<close>. Moreover two
  stores with the same categories and the same transactions of \<open>uid\<close>, whatever the
  transactions of other users, give the same \<open>findAll\<close>, \<open>getSummary\<close>, \<open>getTrends\<close> and
  \<open>getCategoryBreakdown\<close> for \<open>uid\<close>: the rows of other users are never returned and never
  enter an aggregate.
\<close>

theorem ownership_scoping:
  assumes cats: "categories db' = categories db"
    and own: "filter (\<lambda>t. userId t = uid) (transactions db')
            = filter (\<lambda>t. userId t = uid) (transactions db)"
  shows "(\<forall>r. findAll ilike db uid f = Inr r \<longrightarrow> (\<forall>row \<in> set (data r). userId (fst row) = uid))
     \<and> findAll ilike db' uid f = findAll ilike db uid f
     \<and> getSummary db' uid sd ed = getSummary db uid sd ed
     \<and> getTrends to_char emit db' uid per = getTrends to_char emit db uid per
     \<and> getCategoryBreakdown db' uid ty sd ed = getCategoryBreakdown db uid ty sd ed"
proof (intro conjI allI impI)
  fix r assume r: "findAll ilike db uid f = Inr r"
  let ?M = "filter (matches ilike uid f) (transactions db)"
  obtain S where S: "set S \<subseteq> set ?M" and d: "data r = map (leftJoin db) (orderBy_DESC date S)"
    using findAll_data [OF r] by blast
  have "\<forall>t \<in> set (orderBy_DESC date S). userId t = uid"
    using S by (auto simp: set_orderBy_DESC matches_def)
  then show "\<forall>row \<in> set (data r). userId (fst row) = uid"
    unfolding d by (simp add: leftJoin_def)
next
  have j: "leftJoin db' = leftJoin db" by (simp add: fun_eq_iff leftJoin_def cats)
  have m: "filter (matches ilike uid f) (transactions db') = filter (matches ilike uid f) (transactions db)"
    using matches_owner [of ilike uid f "transactions db'"] matches_owner [of ilike uid f "transactions db"]
    by (simp only: own)
  show "findAll ilike db' uid f = findAll ilike db uid f"
    unfolding findAll_def by (simp only: j m)
next
  have "filter (\<lambda>t. userId t = uid \<and> between_filter sd ed t) (transactions db')
      = filter (\<lambda>t. userId t = uid \<and> between_filter sd ed t) (transactions db)"
    by (simp only: filter_owner_first own)
  then show "getSummary db' uid sd ed = getSummary db uid sd ed"
    unfolding getSummary_def by (simp only:)
next
  show "getTrends to_char emit db' uid per = getTrends to_char emit db uid per"
    unfolding getTrends_def by (simp only: own)
next
  have g: "group_key db' = group_key db"
    by (simp add: fun_eq_iff group_key_def leftJoin_def cats)
  have "filter (\<lambda>t. userId t = uid \<and> (case ty of None \<Rightarrow> True | Some v \<Rightarrow> type_txn t = v)
                     \<and> between_filter sd ed t) (transactions db')
      = filter (\<lambda>t. userId t = uid \<and> (case ty of None \<Rightarrow> True | Some v \<Rightarrow> type_txn t = v)
                     \<and> between_filter sd ed t) (transactions db)"
    by (simp only: filter_owner_first own)
  then show "getCategoryBreakdown db' uid ty sd ed = getCategoryBreakdown db uid ty sd ed"
    unfolding getCategoryBreakdown_def by (simp only: g)
qed

theorem ownership_scoping_witness:
  "categories own_store = categories demo_store
   \<and> filter (\<lambda>t. userId t = ''U'') (transactions own_store)
       = filter (\<lambda>t. userId t = ''U'') (transactions demo_store)
   \<and> findAll (\<lambda>p d. False) demo_store ''U'' no_filters
       = Inr \<lparr> data = [(dinner, Some food_cat), (lunch, Some food_cat), (salary, Some salary_cat)],
               total_r = 3, page_r = 1, limit_r = 20, totalPages = Num 1 \<rparr>
   \<and> userId dinner = ''U'' \<and> userId lunch = ''U'' \<and> userId salary = ''U''
   \<and> getSummary demo_store ''U'' None None
       = \<lparr> totalIncome = 1000, totalExpense = 80, netBalance = 920, transactionCount = 3 \<rparr>
   \<and> getTrends (\<lambda>fmt d. d div 31) (\<lambda>ks. ks) demo_store ''U'' None
       = [(0, Expense, 8000), (0, Income, 100000)]
   \<and> getCategoryBreakdown demo_store ''U'' None None None
       = [\<lparr> categoryId_b = Some ''salary-cat'', categoryName = Some ''Salary'',
            color = Some ''#059669'', icon = Some ''dollar-sign'', total_b = 100000, count_b = 1 \<rparr>,
          \<lparr> categoryId_b = Some ''food-cat'', categoryName = Some ''Food'',
            color = Some ''#EF4444'', icon = Some ''utensils'', total_b = 8000, count_b = 2 \<rparr>]"
proof -
  have h: "categories own_store = categories demo_store"
    "filter (\<lambda>t. userId t = ''U'') (transactions own_store)
       = filter (\<lambda>t. userId t = ''U'') (transactions demo_store)"
    by (simp_all add: demo)
  note s = ownership_scoping [OF h, where ilike = "\<lambda>p d. False" and f = no_filters
      and sd = None and ed = None and to_char = "\<lambda>fmt d. d div 31" and emit = "\<lambda>ks. ks"
      and per = None and ty = None]
  have fa: "findAll (\<lambda>p d. False) own_store ''U'' no_filters
       = Inr \<lparr> data = [(dinner, Some food_cat), (lunch, Some food_cat), (salary, Some salary_cat)],
               total_r = 3, page_r = 1, limit_r = 20, totalPages = Num 1 \<rparr>"
    by (simp add: eval_findAll demo)
  have su: "getSummary own_store ''U'' None None
       = \<lparr> totalIncome = 1000, totalExpense = 80, netBalance = 920, transactionCount = 3 \<rparr>"
    by (simp add: eval_summary demo)
  have tr: "getTrends (\<lambda>fmt d. d div 31) (\<lambda>ks. ks) own_store ''U'' None
       = [(0, Expense, 8000), (0, Income, 100000)]"
    by (simp add: getTrends_def demo)
  have br: "getCategoryBreakdown own_store ''U'' None None None
       = [\<lparr> categoryId_b = Some ''salary-cat'', categoryName = Some ''Salary'',
            color = Some ''#059669'', icon = Some ''dollar-sign'', total_b = 100000, count_b = 1 \<rparr>,
          \<lparr> categoryId_b = Some ''food-cat'', categoryName = Some ''Food'',
            color = Some ''#EF4444'', icon = Some ''utensils'', total_b = 8000, count_b = 2 \<rparr>]"
    by (simp add: getCategoryBreakdown_def between_filter_def group_key_def leftJoin_def
        orderBy_DESC_def demo)
  from s fa su tr br h show ?thesis by (simp add: demo)
qed

section \<open>Summary totals\<close>

text \<open>
  C2, as amended. Let \<open>M\<close> be the rows that the query of \<open>getSummary\<close> selects: those of the
  user, within the closed date range when both bounds are given. Then \<open>totalIncome\<close> is the
  sum in double arithmetic of the amounts of the income rows of \<open>M\<close>, each read as a double
  and added to the running sum from \<open>0\<close> in the order of the query; \<open>totalExpense\<close> is the
  same sum over the expense rows; \<open>netBalance\<close> is the double difference of the two; and
  \<open>transactionCount\<close> is the number of rows of \<open>M\<close>, the income rows plus the expense rows.
  When \<open>M\<close> is empty, all four are zero. When the income amounts are whole units, none
  negative, of a sum of at most \<open>2 ^ 53\<close> units, \<open>totalIncome\<close> is their exact sum; likewise
  for \<open>totalExpense\<close>; and when both hold, \<open>netBalance\<close> is the exact difference.
\<close>

theorem getSummary_correct:
  fixes db uid sd ed
  defines "M \<equiv> filter (\<lambda>t. userId t = uid \<and> between_filter sd ed t) (transactions db)"
  defines "s \<equiv> getSummary db uid sd ed"
  shows "totalIncome s
           = double_sum_from 0 (map (\<lambda>t. Number (amount t)) (filter (\<lambda>t. type_txn t = Income) M))
       \<and> totalExpense s
           = double_sum_from 0 (map (\<lambda>t. Number (amount t)) (filter (\<lambda>t. type_txn t = Expense) M))
       \<and> netBalance s = fl (totalIncome s - totalExpense s)
       \<and> transactionCount s = length M
       \<and> transactionCount s = length (filter (\<lambda>t. type_txn t = Income) M)
                                + length (filter (\<lambda>t. type_txn t = Expense) M)
       \<and> (M = [] \<longrightarrow> totalIncome s = 0 \<and> totalExpense s = 0 \<and> netBalance s = 0
                      \<and> transactionCount s = 0)
       \<and> (whole_units (filter (\<lambda>t. type_txn t = Income) M)
            \<longrightarrow> totalIncome s = exact_sum (filter (\<lambda>t. type_txn t = Income) M))
       \<and> (whole_units (filter (\<lambda>t. type_txn t = Expense) M)
            \<longrightarrow> totalExpense s = exact_sum (filter (\<lambda>t. type_txn t = Expense) M))
       \<and> (whole_units (filter (\<lambda>t. type_txn t = Income) M)
            \<and> whole_units (filter (\<lambda>t. type_txn t = Expense) M)
            \<longrightarrow> netBalance s = exact_sum (filter (\<lambda>t. type_txn t = Income) M)
                                - exact_sum (filter (\<lambda>t. type_txn t = Expense) M))"
proof -
  let ?I = "filter (\<lambda>t. type_txn t = Income) M"
  let ?E = "filter (\<lambda>t. type_txn t = Expense) M"
  let ?di = "double_sum_from 0 (map (\<lambda>t. Number (amount t)) ?I)"
  let ?de = "double_sum_from 0 (map (\<lambda>t. Number (amount t)) ?E)"
  have s: "s = \<lparr> totalIncome = ?di, totalExpense = ?de, netBalance = fl (?di - ?de),
                 transactionCount = length M \<rparr>"
    unfolding s_def M_def getSummary_def Let_def foldl_double_sum by simp
  have wi: "?di = exact_sum ?I" if "whole_units ?I" using whole_units_sum(1) [OF that] .
  have we: "?de = exact_sum ?E" if "whole_units ?E" using whole_units_sum(1) [OF that] .
  have wn: "fl (?di - ?de) = exact_sum ?I - exact_sum ?E" if "whole_units ?I \<and> whole_units ?E"
  proof -
    from that whole_units_sum(2) [of ?I] obtain a where a: "exact_sum ?I = of_int a" "0 \<le> a" "a \<le> 2 ^ 53"
      by blast
    from that whole_units_sum(2) [of ?E] obtain b where b: "exact_sum ?E = of_int b" "0 \<le> b" "b \<le> 2 ^ 53"
      by blast
    have "\<bar>a - b\<bar> \<le> 2 ^ 53" using a(2,3) b(2,3) by simp
    then have "fl (of_int (a - b)) = of_int (a - b)" by (rule fl_of_int)
    then show ?thesis using that by (simp add: wi we a(1) b(1))
  qed
  have e: "M = [] \<longrightarrow> ?di = 0 \<and> ?de = 0 \<and> fl (?di - ?de) = 0" by (simp add: fl_0)
  show ?thesis
    unfolding s using length_filter_txn_type [of M] wi we wn e by simp
qed

theorem getSummary_correct_witness:
  "getSummary demo_store ''U'' None None
     = \<lparr> totalIncome = 1000, totalExpense = 80, netBalance = 920, transactionCount = 3 \<rparr>
   \<and> whole_units [salary] \<and> whole_units [lunch, dinner]
   \<and> exact_sum [salary] = 1000 \<and> exact_sum [lunch, dinner] = 80
   \<and> totalIncome (getSummary demo_store ''U'' (Some 20) (Some 30)) = 0
   \<and> transactionCount (getSummary demo_store ''U'' (Some 20) (Some 30)) = 0"
proof -
  note a = getSummary_correct [of demo_store "''U''" None None]
  note b = getSummary_correct [of demo_store "''U''" "Some 20" "Some 30"]
  have M: "filter (\<lambda>t. userId t = ''U'' \<and> between_filter None None t) (transactions demo_store)
      = [lunch, dinner, salary]"
    "filter (\<lambda>t. userId t = ''U'' \<and> between_filter (Some 20) (Some 30) t) (transactions demo_store) = []"
    by (simp_all add: between_filter_def demo)
  have f: "filter (\<lambda>t. type_txn t = Income) [lunch, dinner, salary] = [salary]"
    "filter (\<lambda>t. type_txn t = Expense) [lunch, dinner, salary] = [lunch, dinner]"
    by (simp_all add: demo)
  have w: "whole_units [salary]" "whole_units [lunch, dinner]"
    by (simp_all add: whole_units_def demo)
  have e: "exact_sum [salary] = 1000" "exact_sum [lunch, dinner] = 80"
    by (simp_all add: exact_sum_def demo)
  note a' = a [unfolded M f]
  from a' w have ti: "totalIncome (getSummary demo_store ''U'' None None) = exact_sum [salary]"
    by blast
  from a' w have te: "totalExpense (getSummary demo_store ''U'' None None) = exact_sum [lunch, dinner]"
    by blast
  from a' w have nb: "netBalance (getSummary demo_store ''U'' None None)
      = exact_sum [salary] - exact_sum [lunch, dinner]"
    by blast
  from a' have tc: "transactionCount (getSummary demo_store ''U'' None None) = length [lunch, dinner, salary]"
    by blast
  have "getSummary demo_store ''U'' None None
     = \<lparr> totalIncome = 1000, totalExpense = 80, netBalance = 920, transactionCount = 3 \<rparr>"
    using ti te nb tc unfolding e by (cases "getSummary demo_store ''U'' None None") simp
  moreover from b [unfolded M] have "totalIncome (getSummary demo_store ''U'' (Some 20) (Some 30)) = 0"
    "transactionCount (getSummary demo_store ''U'' (Some 20) (Some 30)) = 0"
    by simp_all
  ultimately show ?thesis using w e by simp
qed

text \<open>
  C2 as stated fails. With expenses of 0.10 and 0.20 the double sum is
  0.3000000000000000444, which is neither their sum 0.30 nor the double nearest to it; set
  against an income of 0.30 the net balance is \<open>- (2 powr - 54)\<close>, not zero.
\<close>

theorem rounded_sum_counterexample:
  "getSummary cents_store ''U'' None None
     = \<lparr> totalIncome = 5404319552844595 / 18014398509481984,
         totalExpense = 1351079888211149 / 4503599627370496,
         netBalance = - 1 / 18014398509481984,
         transactionCount = 3 \<rparr>
   \<and> exact_sum [dime, two_dimes] = 3 / 10
   \<and> fl (exact_sum [dime, two_dimes]) = 5404319552844595 / 18014398509481984
   \<and> (1351079888211149 / 4503599627370496 :: rat) \<noteq> 3 / 10
   \<and> (1351079888211149 / 4503599627370496 :: rat) \<noteq> 5404319552844595 / 18014398509481984"
proof -
  have a: "exact_sum [dime, two_dimes] = 3 / 10" by (simp add: exact_sum_def cents)
  have b: "fl (exact_sum [dime, two_dimes]) = 5404319552844595 / 18014398509481984"
    unfolding a by (rule fl_three_tenths)
  have c: "(1351079888211149 / 4503599627370496 :: rat) \<noteq> 3 / 10"
    "(1351079888211149 / 4503599627370496 :: rat) \<noteq> 5404319552844595 / 18014398509481984"
    by simp_all
  from cents_summary a b c show ?thesis by blast
qed

section \<open>Breakdown and summary\<close>

text \<open>
  C3, as amended. For either type let \<open>R\<close> be the rows of that type among the rows that
  \<open>getSummary\<close> selects for the same user and the same optional date bounds. The \<open>total\<close>
  values of the rows of \<open>getCategoryBreakdown\<close> add up to the exact sum of the amounts of
  \<open>R\<close>, and the \<open>totalIncome\<close>, respectively \<open>totalExpense\<close>, of \<open>getSummary\<close> is the sum in
  double arithmetic over the same \<open>R\<close>. When the amounts of \<open>R\<close> are whole units, none
  negative, of a sum of at most \<open>2 ^ 53\<close> units, the two are the same number.
\<close>

theorem breakdown_vs_summary:
  fixes db uid ty sd ed
  defines "R \<equiv> filter (\<lambda>t. type_txn t = ty)
                  (filter (\<lambda>t. userId t = uid \<and> between_filter sd ed t) (transactions db))"
  defines "b \<equiv> sum_list (map total_b (getCategoryBreakdown db uid (Some ty) sd ed))"
  defines "s \<equiv> (case ty of Income \<Rightarrow> totalIncome (getSummary db uid sd ed)
                           | Expense \<Rightarrow> totalExpense (getSummary db uid sd ed))"
  shows "b = sum_list (map amount R)
     \<and> s = double_sum_from 0 (map (\<lambda>t. Number (amount t)) R)
     \<and> (whole_units R \<longrightarrow> of_int b / 100 = s)"
proof -
  let ?rows = "filter (\<lambda>t. userId t = uid \<and> type_txn t = ty \<and> between_filter sd ed t)
                 (transactions db)"
  have "b = (\<Sum>k\<leftarrow>remdups (map (group_key db) ?rows).
           sum_list (map amount (filter (\<lambda>t. group_key db t = k) ?rows)))"
    unfolding b_def getCategoryBreakdown_def Let_def sum_list_orderBy_DESC
    by (simp add: comp_def)
  also have "\<dots> = sum_list (map amount ?rows)"
    by (rule sum_list_remdups_groups)
  also have "?rows = R"
    unfolding R_def by (simp add: conj_commute conj_left_commute)
  finally have b: "b = sum_list (map amount R)" .
  have s: "s = double_sum_from 0 (map (\<lambda>t. Number (amount t)) R)"
    unfolding s_def R_def getSummary_def Let_def foldl_double_sum
    by (cases ty) simp_all
  have w: "of_int b / 100 = s" if "whole_units R"
    using whole_units_sum(1) [OF that] unfolding s b by (simp add: exact_sum_def)
  from b s w show ?thesis by blast
qed

theorem breakdown_vs_summary_witness:
  "whole_units [lunch, dinner]
   \<and> sum_list (map total_b (getCategoryBreakdown demo_store ''U'' (Some Expense) None None)) = 8000
   \<and> totalExpense (getSummary demo_store ''U'' None None) = 80"
proof -
  have R: "filter (\<lambda>t. type_txn t = Expense)
       (filter (\<lambda>t. userId t = ''U'' \<and> between_filter None None t) (transactions demo_store))
      = [lunch, dinner]"
    by (simp add: between_filter_def demo)
  have w: "whole_units [lunch, dinner]" by (simp add: whole_units_def demo)
  note a = breakdown_vs_summary [of demo_store "''U''" Expense None None, unfolded R]
  from a have b: "sum_list (map total_b (getCategoryBreakdown demo_store ''U'' (Some Expense) None None))
      = sum_list (map amount [lunch, dinner])" by blast
  from a w have "rat_of_int (sum_list (map total_b (getCategoryBreakdown demo_store ''U'' (Some Expense) None None))) / 100
      = totalExpense (getSummary demo_store ''U'' None None)"
    by simp
  with b w show ?thesis by (simp add: demo)
qed

text \<open>
  C3 as stated fails. With expenses of 0.10 and 0.20 in one category the breakdown total is
  0.30 and the summary's \<open>totalExpense\<close> is 0.3000000000000000444, which is not the double
  nearest to 0.30 either.
\<close>

theorem breakdown_vs_summary_counterexample:
  "sum_list (map total_b (getCategoryBreakdown cents_store ''U'' (Some Expense) None None)) = 30
   \<and> totalExpense (getSummary cents_store ''U'' None None) = 1351079888211149 / 4503599627370496
   \<and> (30 / 100 :: rat) \<noteq> 1351079888211149 / 4503599627370496
   \<and> fl (30 / 100) \<noteq> 1351079888211149 / 4503599627370496"
proof -
  have a: "sum_list (map total_b (getCategoryBreakdown cents_store ''U'' (Some Expense) None None)) = 30"
    by (simp add: getCategoryBreakdown_def between_filter_def group_key_def leftJoin_def
        orderBy_DESC_def cents)
  have b: "totalExpense (getSummary cents_store ''U'' None None) = 1351079888211149 / 4503599627370496"
    by (simp only: cents_summary summary.select_convs)
  have c: "(30 / 100 :: rat) \<noteq> 1351079888211149 / 4503599627370496" by simp
  have "fl (30 / 100) = fl (3 / 10)" by simp
  then have d: "fl (30 / 100) \<noteq> 1351079888211149 / 4503599627370496"
    by (simp only: fl_three_tenths)
  from a b c d show ?thesis by blast
qed

section \<open>Pagination metadata\<close>

text \<open>
  C4. For positive \<open>page\<close> and \<open>limit\<close>, \<open>findAll\<close> succeeds; \<open>total\<close> is the number of rows
  that match the filter, whatever the page and the limit; \<open>totalPages\<close> is the ceiling of
  \<open>total / limit\<close>, the least number of pages of \<open>limit\<close> rows that hold \<open>total\<close> rows, and
  is \<open>0\<close> when \<open>total\<close> is; and a page beyond \<open>totalPages\<close> has an empty \<open>data\<close> array with
  that same \<open>total\<close>.
\<close>

theorem pagination_metadata:
  assumes "0 < p" and "0 < l"
  shows "\<exists>r tp. findAll ilike db uid (f\<lparr>page := Some p, limit := Some l\<rparr>) = Inr r
     \<and> total_r r = int (length (filter (matches ilike uid f) (transactions db)))
     \<and> totalPages r = Num tp
     \<and> tp = \<lceil>real_of_int (total_r r) / real_of_int l\<rceil>
     \<and> total_r r \<le> tp * l \<and> (tp - 1) * l < total_r r
     \<and> (total_r r = 0 \<longrightarrow> tp = 0)
     \<and> (tp < p \<longrightarrow> data r = [])
     \<and> page_r r = p \<and> limit_r r = l"
proof -
  let ?f = "f\<lparr>page := Some p, limit := Some l\<rparr>"
  let ?M = "filter (matches ilike uid f) (transactions db)"
  let ?n = "int (length ?M)"
  let ?c = "\<lceil>real_of_int ?n / real_of_int l\<rceil>"
  let ?sel = "filter (\<lambda>t. id_txn t \<in> set (page_ids ((p - 1) * l) l ?M)) ?M"
  let ?r = "\<lparr> data = map (leftJoin db) (orderBy_DESC date ?sel),
             total_r = ?n, page_r = p, limit_r = l, totalPages = Num ?c \<rparr>"
  have r: "findAll ilike db uid ?f = Inr ?r"
    using findAll_paged [of ?f ilike db uid] assms by simp
  note b = ceiling_div_bounds [OF assms(2), of ?n]
  have beyond: "data ?r = []" if "?c < p"
  proof -
    from that have "?c \<le> p - 1" by simp
    then have "?c * l \<le> (p - 1) * l" using assms(2) by (simp add: mult_right_mono)
    with b(1) have "?n \<le> (p - 1) * l" by linarith
    then have "page_ids ((p - 1) * l) l ?M = []" by (rule page_ids_beyond)
    then show ?thesis by (simp add: orderBy_DESC_def)
  qed
  have "total_r ?r = ?n \<and> totalPages ?r = Num ?c
     \<and> ?c = \<lceil>real_of_int (total_r ?r) / real_of_int l\<rceil>
     \<and> total_r ?r \<le> ?c * l \<and> (?c - 1) * l < total_r ?r
     \<and> (total_r ?r = 0 \<longrightarrow> ?c = 0)
     \<and> (?c < p \<longrightarrow> data ?r = [])
     \<and> page_r ?r = p \<and> limit_r ?r = l"
    using b beyond by simp
  with r show ?thesis by blast
qed

theorem pagination_metadata_witness:
  "(0::int) < 4 \<and> (0::int) < 1
   \<and> findAll (\<lambda>p d. False) demo_store ''U'' (no_filters\<lparr>page := Some 4, limit := Some 1\<rparr>)
       = Inr \<lparr> data = [], total_r = 3, page_r = 4, limit_r = 1, totalPages = Num 3 \<rparr>
   \<and> findAll (\<lambda>p d. False) demo_store ''U'' (no_filters\<lparr>page := Some 1, limit := Some 1\<rparr>)
       = Inr \<lparr> data = [(dinner, Some food_cat)], total_r = 3, page_r = 1, limit_r = 1,
               totalPages = Num 3 \<rparr>"
proof -
  have h: "(0::int) < 4" "(0::int) < 1" by simp_all
  from pagination_metadata [OF h, of "\<lambda>p d. False" demo_store "''U''" no_filters]
  obtain r tp where r: "findAll (\<lambda>p d. False) demo_store ''U'' (no_filters\<lparr>page := Some 4, limit := Some 1\<rparr>) = Inr r"
    and t: "total_r r = int (length (filter (matches (\<lambda>p d. False) ''U'' no_filters) (transactions demo_store)))"
    and n: "totalPages r = Num tp"
    and tp: "tp = \<lceil>real_of_int (total_r r) / real_of_int 1\<rceil>"
    and d: "tp < 4 \<longrightarrow> data r = []"
    and pl: "page_r r = 4" "limit_r r = 1"
    by blast
  have t3: "total_r r = 3" unfolding t by (simp add: eval_findAll demo)
  with tp have "tp = 3" by simp
  with d t3 pl n have "r = \<lparr> data = [], total_r = 3, page_r = 4, limit_r = 1, totalPages = Num 3 \<rparr>"
    by (cases r) simp
  moreover have "findAll (\<lambda>p d. False) demo_store ''U'' (no_filters\<lparr>page := Some 1, limit := Some 1\<rparr>)
       = Inr \<lparr> data = [(dinner, Some food_cat)], total_r = 3, page_r = 1, limit_r = 1,
               totalPages = Num 3 \<rparr>"
    by (simp add: eval_findAll demo)
  ultimately show ?thesis using r h by simp
qed

section \<open>Not found and not owned\<close>




section \<open>Partial update\<close>




section \<open>Date ranges of the aggregations\<close>

text \<open>
  C7. \<open>getSummary\<close> and \<open>getCategoryBreakdown\<close> apply a date condition only when both
  bounds are given. On the data set, with the lone bound \<open>startDate = 10\<close> (or the lone bound
  \<open>endDate = 10\<close>) they still count all three transactions of \<open>U\<close>, dated 1, 8 and 15, where
  the closed range from 10 to 31 keeps the one of day 15 and where \<open>findAll\<close> with the
  same lone \<open>startDate\<close> returns that one alone.
\<close>

theorem lone_bound_ignored:
  "getSummary demo_store ''U'' (Some 10) None
     = \<lparr> totalIncome = 1000, totalExpense = 80, netBalance = 920, transactionCount = 3 \<rparr>
   \<and> getSummary demo_store ''U'' None (Some 10)
     = \<lparr> totalIncome = 1000, totalExpense = 80, netBalance = 920, transactionCount = 3 \<rparr>
   \<and> getSummary demo_store ''U'' (Some 10) (Some 31)
     = \<lparr> totalIncome = 0, totalExpense = 30, netBalance = - 30, transactionCount = 1 \<rparr>
   \<and> getCategoryBreakdown demo_store ''U'' (Some Expense) (Some 10) None
     = [\<lparr> categoryId_b = Some ''food-cat'', categoryName = Some ''Food'',
          color = Some ''#EF4444'', icon = Some ''utensils'', total_b = 8000, count_b = 2 \<rparr>]
   \<and> getCategoryBreakdown demo_store ''U'' (Some Expense) (Some 10) (Some 31)
     = [\<lparr> categoryId_b = Some ''food-cat'', categoryName = Some ''Food'',
          color = Some ''#EF4444'', icon = Some ''utensils'', total_b = 3000, count_b = 1 \<rparr>]
   \<and> map fst (case findAll (\<lambda>p d. False) demo_store ''U'' (no_filters\<lparr>startDate := Some 10\<rparr>) of
                Inl e \<Rightarrow> [] | Inr r \<Rightarrow> data r) = [dinner]"
  by (simp add: eval_summary getCategoryBreakdown_def group_key_def eval_findAll demo)

section \<open>Order of the listing\<close>

text \<open>
  C8, as amended. For a positive limit and a unique primary key, the \<open>data\<close> array of
  \<open>findAll\<close> is sorted by date, latest first. Its rows are those at the positions
  \<open>(page - 1) * limit\<close> up to, not including, \<open>page * limit\<close> of the matching rows in the
  order by date, latest first, and by ascending id among the rows of one date: the id decides
  on which page a row of a tied date falls. Within the page the rows of one date stand in
  the order in which the storage engine delivers them.
\<close>

theorem listing_order:
  assumes r: "findAll ilike db uid f = Inr r" and l: "0 < limitNum f" and pk: "pk_intact db"
  defines "M \<equiv> filter (matches ilike uid f) (transactions db)"
  defines "W \<equiv> take (nat (limitNum f)) (drop (nat ((pageNum f - 1) * limitNum f)) (page_order M))"
  shows "sorted_wrt (\<lambda>a b. date (fst b) \<le> date (fst a)) (data r)
     \<and> mset (map fst (data r)) = mset W
     \<and> mset (page_order M) = mset M
     \<and> sorted_wrt (\<lambda>a b. date b < date a \<or> date a = date b \<and> id_txn a \<le> id_txn b) (page_order M)
     \<and> (\<forall>d. filter (\<lambda>t. date t = d) (map fst (data r))
              = filter (\<lambda>t. date t = d) (filter (\<lambda>t. t \<in> set W) (transactions db)))"
proof -
  let ?skip = "(pageNum f - 1) * limitNum f"
  let ?sel = "filter (\<lambda>t. id_txn t \<in> set (page_ids ?skip (limitNum f) M)) M"
  have ne: "\<not> (limitNum f < 0 \<or> ?skip < 0)" "limitNum f \<noteq> 0"
    using r l by (auto simp: findAll_def Let_def split: if_splits)
  have d: "data r = map (leftJoin db) (orderBy_DESC date ?sel)"
    using r ne unfolding findAll_def Let_def M_def by auto
  have fsts: "map fst (data r) = orderBy_DESC date ?sel"
    unfolding d by (simp add: comp_def leftJoin_def)
  have dM: "distinct (map id_txn M)" unfolding M_def by (rule pk_matching [OF pk])
  have ms: "mset ?sel = mset W"
    unfolding W_def by (rule mset_selected [OF dM])
  have s1: "sorted_wrt (\<lambda>a b. date (fst b) \<le> date (fst a)) (data r)"
  proof -
    have "sorted_wrt (\<lambda>a b. date b \<le> date a) (map fst (data r))"
      unfolding fsts by (rule sorted_orderBy_DESC)
    then show ?thesis by (simp add: sorted_wrt_map)
  qed
  have s2: "mset (map fst (data r)) = mset W"
    unfolding fsts mset_orderBy_DESC by (rule ms)
  have s5: "filter (\<lambda>t. date t = d) (map fst (data r))
              = filter (\<lambda>t. date t = d) (filter (\<lambda>t. t \<in> set W) (transactions db))" for d
  proof -
    have "filter (\<lambda>t. - date t = - d) (orderBy_DESC date ?sel) = filter (\<lambda>t. - date t = - d) ?sel"
      unfolding orderBy_DESC_def by (rule sort_key_stable)
    then have a: "filter (\<lambda>t. date t = d) (map fst (data r)) = filter (\<lambda>t. date t = d) ?sel"
      unfolding fsts by simp
    have ids: "set (page_ids ?skip (limitNum f) M) = id_txn ` set W"
      by (simp add: page_ids_def W_def)
    have subW: "set W \<subseteq> set M"
    proof -
      have "set W \<subseteq> set (drop (nat ?skip) (page_order M))" unfolding W_def by (rule set_take_subset)
      also have "\<dots> \<subseteq> set (page_order M)" by (rule set_drop_subset)
      also have "\<dots> = set M" by (rule set_page_order)
      finally show ?thesis .
    qed
    have inj: "inj_on id_txn (set M)" using dM by (simp add: distinct_map)
    have "?sel = filter (\<lambda>t. t \<in> set W) M"
    proof (rule filter_cong [OF refl])
      fix t assume t: "t \<in> set M"
      show "(id_txn t \<in> set (page_ids ?skip (limitNum f) M)) = (t \<in> set W)"
      proof
        assume "id_txn t \<in> set (page_ids ?skip (limitNum f) M)"
        then obtain w where w: "w \<in> set W" "id_txn w = id_txn t" by (auto simp: ids image_iff)
        with subW have "w \<in> set M" by blast
        with inj t w(2) have "w = t" by (blast dest: inj_onD)
        with w(1) show "t \<in> set W" by simp
      next
        assume "t \<in> set W"
        then show "id_txn t \<in> set (page_ids ?skip (limitNum f) M)" by (simp add: ids)
      qed
    qed
    also have "\<dots> = filter (\<lambda>t. t \<in> set W) (transactions db)"
    proof -
      have "\<And>t. t \<in> set W \<Longrightarrow> matches ilike uid f t" using subW by (auto simp: M_def)
      then have "\<And>t. (matches ilike uid f t \<and> t \<in> set W) = (t \<in> set W)" by blast
      then show ?thesis unfolding M_def by (simp add: conj_commute)
    qed
    finally show ?thesis using a by simp
  qed
  from s1 s2 mset_page_order [of M] sorted_page_order [of M] s5 show ?thesis by blast
qed

theorem listing_order_witness:
  "findAll (\<lambda>p d. False) demo_store ''U'' (no_filters\<lparr>page := Some 2, limit := Some 2\<rparr>)
     = Inr \<lparr> data = [(salary, Some salary_cat)], total_r = 3, page_r = 2, limit_r = 2,
             totalPages = Num 2 \<rparr>
   \<and> 0 < limitNum (no_filters\<lparr>page := Some 2, limit := Some 2\<rparr>) \<and> pk_intact demo_store
   \<and> mset (map fst [(salary, Some salary_cat)])
       = mset (take 2 (drop 2 (page_order (filter (matches (\<lambda>p d. False) ''U'' no_filters)
                                             (transactions demo_store)))))"
proof -
  let ?f = "no_filters\<lparr>page := Some 2, limit := Some 2\<rparr>"
  have r: "findAll (\<lambda>p d. False) demo_store ''U'' ?f
     = Inr \<lparr> data = [(salary, Some salary_cat)], total_r = 3, page_r = 2, limit_r = 2,
             totalPages = Num 2 \<rparr>"
    by (simp add: eval_findAll demo)
  have h: "0 < limitNum ?f" "pk_intact demo_store" by (simp_all add: pk_intact_def limitNum_def demo)
  from listing_order [OF r h] r h show ?thesis by simp
qed

text \<open>
  C8 as stated fails. Two expenses of one day are created one after the other, the first
  receiving the greater id. Listed on one page the first created comes first, against the
  order of the ids; listed with one row a page the second created comes first, against the
  order of insertion.
\<close>

theorem tie_order_counterexample:
  "snd (create 2 1 (snd (create 1 2 no_rows ''U'' tie_dto)) ''U'' tie_dto) = tie_store
   \<and> transactions tie_store = [early, late]
   \<and> date early = date late \<and> createdAt early < createdAt late \<and> id_txn late < id_txn early
   \<and> findAll (\<lambda>p d. False) tie_store ''U'' no_filters
       = Inr \<lparr> data = [(early, Some food_cat), (late, Some food_cat)],
               total_r = 2, page_r = 1, limit_r = 20, totalPages = Num 1 \<rparr>
   \<and> findAll (\<lambda>p d. False) tie_store ''U'' (no_filters\<lparr>page := Some 1, limit := Some 1\<rparr>)
       = Inr \<lparr> data = [(late, Some food_cat)],
               total_r = 2, page_r = 1, limit_r = 1, totalPages = Num 2 \<rparr>
   \<and> findAll (\<lambda>p d. False) tie_store ''U'' (no_filters\<lparr>page := Some 2, limit := Some 1\<rparr>)
       = Inr \<lparr> data = [(early, Some food_cat)],
               total_r = 2, page_r = 2, limit_r = 1, totalPages = Num 2 \<rparr>"
  by (simp add: eval_findAll create_def save_def join_column_def Let_def tie)

section \<open>CSV export\<close>

text \<open>
  C9. With the foreign key intact and no \<open>page\<close> in the filter, \<open>exportToCsv\<close> returns the
  header line \<open>Date,Type,Category,Amount,Description\<close> followed by one line for each row of
  the listing taken with limit 10000, in the order of that listing: all matching rows by
  date, latest first, when there are at most 10000, and with a unique primary key 10000 rows
  when there are more, those of the first 10000 keys of the listing. Each line is the date,
  the type, the category name, the amount and the description between double quotes (nothing
  between them when there is no description), separated by commas. On the data set of three
  rows the text has four lines.
\<close>

theorem csv_export_shape:
  fixes ilike uid
  assumes "fk_intact db" and "page f = None"
  defines "M \<equiv> filter (matches ilike uid f) (transactions db)"
  shows "\<exists>r. findAll ilike db uid (f\<lparr>limit := Some 10000\<rparr>) = Inr r
     \<and> map fst (data r)
         = orderBy_DESC date (filter (\<lambda>t. id_txn t \<in> id_txn ` set (take 10000 (page_order M))) M)
     \<and> (length M \<le> 10000 \<longrightarrow>
          map fst (data r) = take 10000 (orderBy_DESC date M) \<and> length (data r) = length M)
     \<and> (pk_intact db \<longrightarrow> length (data r) = min 10000 (length M))
     \<and> exportToCsv ilike sd sa db uid f
         = Inr (terminated_lines (csv_header # map (spec_csv_line sd sa) (data r)))"
proof -
  define sel where "sel = filter (\<lambda>t. id_txn t \<in> set (page_ids ((pageNum f - 1) * 10000) 10000 M)) M"
  let ?r = "\<lparr> data = map (leftJoin db) (orderBy_DESC date sel),
           total_r = int (length M), page_r = pageNum f, limit_r = 10000,
           totalPages = Num \<lceil>real_of_int (int (length M)) / real_of_int 10000\<rceil> \<rparr>"
  have p1: "pageNum f = 1" using assms(2) by (simp add: pageNum_def)
  then have pos: "0 < pageNum f" by simp
  have r: "findAll ilike db uid (f\<lparr>limit := Some 10000\<rparr>) = Inr ?r"
    unfolding M_def sel_def by (rule findAll_export [OF pos])
  have sel: "sel = filter (\<lambda>t. id_txn t \<in> id_txn ` set (take 10000 (page_order M))) M"
    by (simp add: sel_def p1 page_ids_def)
  have fsts0: "map fst (data ?r) = orderBy_DESC date sel"
    by (simp add: comp_def leftJoin_def)
  have fsts: "map fst (data ?r)
         = orderBy_DESC date (filter (\<lambda>t. id_txn t \<in> id_txn ` set (take 10000 (page_order M))) M)"
    unfolding fsts0 by (simp only: sel)
  have small: "map fst (data ?r) = take 10000 (orderBy_DESC date M) \<and> length (data ?r) = length M"
    if "length M \<le> 10000"
  proof -
    from that have "take 10000 (page_order M) = page_order M" by (simp add: length_page_order)
    then have "sel = M"
      unfolding sel by (simp add: set_page_order filter_all_ids)
    with that show ?thesis unfolding fsts0 by (simp add: length_orderBy_DESC)
  qed
  have len: "length (data ?r) = min 10000 (length M)" if "pk_intact db"
  proof -
    have "distinct (map id_txn M)" unfolding M_def by (rule pk_matching [OF that])
    from length_selected [OF this, of "(pageNum f - 1) * 10000" 10000]
    have "length sel = min 10000 (length M)" unfolding sel_def by (simp add: p1)
    then show ?thesis by (simp add: length_orderBy_DESC)
  qed
  have ex: "exportToCsv ilike sd sa db uid f
         = Inr (terminated_lines (csv_header # map (spec_csv_line sd sa) (data ?r)))"
    using export_window [OF pos assms(1), of ilike sd sa uid]
    unfolding M_def sel_def by simp
  from r fsts small len ex show ?thesis by blast
qed

theorem csv_export_shape_witness:
  "fk_intact demo_store \<and> page no_filters = None \<and> pk_intact demo_store
   \<and> exportToCsv (\<lambda>p d. False) january money demo_store ''U'' no_filters
       = Inr (''Date,Type,Category,Amount,Description'' @ [CHR 0x0A]
              @ ''2026-01-15,expense,Food,30.00,'' @ [CHR 0x22, CHR 0x22, CHR 0x0A]
              @ ''2026-01-08,expense,Food,50.00,'' @ [CHR 0x22] @ ''Lunch'' @ [CHR 0x22, CHR 0x0A]
              @ ''2026-01-01,income,Salary,1000.00,'' @ [CHR 0x22] @ ''January'' @ [CHR 0x22, CHR 0x0A])"
proof -
  have h: "fk_intact demo_store" "page no_filters = None"
    by (simp_all add: fk_intact_def demo)
  have k: "pk_intact demo_store" by (simp add: pk_intact_def demo)
  from csv_export_shape [OF h, of "\<lambda>p d. False" "''U''" january money]
  obtain r where r: "findAll (\<lambda>p d. False) demo_store ''U'' (no_filters\<lparr>limit := Some 10000\<rparr>) = Inr r"
    and e: "exportToCsv (\<lambda>p d. False) january money demo_store ''U'' no_filters
         = Inr (terminated_lines (csv_header # map (spec_csv_line january money) (data r)))"
    by blast
  have "findAll (\<lambda>p d. False) demo_store ''U'' (no_filters\<lparr>limit := Some 10000\<rparr>)
      = Inr \<lparr> data = [(dinner, Some food_cat), (lunch, Some food_cat), (salary, Some salary_cat)],
               total_r = 3, page_r = 1, limit_r = 10000, totalPages = Num 1 \<rparr>"
    by (simp add: eval_findAll demo)
  with r have "data r = [(dinner, Some food_cat), (lunch, Some food_cat), (salary, Some salary_cat)]"
    by auto
  with e h k show ?thesis
    by (simp add: terminated_lines_def spec_csv_line_def csv_header_def type_string_def
        january_def money_def demo)
qed

text \<open>
  C10. \<open>exportToCsv\<close> replaces whatever \<open>limit\<close> the caller supplies by 10000 and keeps the
  caller's \<open>page\<close>. For a filter with \<open>page = p\<close>, \<open>p\<close> positive, the rows written are the
  matching rows with the keys found from position \<open>(p - 1) * 10000\<close> up to, not including,
  \<open>p * 10000\<close> of the order in which the listing takes its pages (by date, latest first),
  written by date, latest first; with a unique primary key these are the rows at those
  positions. With \<open>p = 2\<close> and at most 10000 matching rows the text is the header line alone.
\<close>

theorem export_forwards_page:
  fixes ilike uid f db
  assumes "0 < p"
  defines "M \<equiv> filter (matches ilike uid f) (transactions db)"
  defines "W \<equiv> take 10000 (drop (nat ((p - 1) * 10000)) (page_order M))"
  shows "exportToCsv ilike sd sa db uid (f\<lparr>page := Some p, limit := l\<rparr>)
           = exportToCsv ilike sd sa db uid (f\<lparr>page := Some p\<rparr>)
     \<and> exportToCsv ilike sd sa db uid (f\<lparr>page := Some p\<rparr>)
           = forEach_rows sd sa
               (map (leftJoin db) (orderBy_DESC date (filter (\<lambda>t. id_txn t \<in> id_txn ` set W) M)))
               (csv_header @ [CHR 0x0A])
     \<and> (pk_intact db \<longrightarrow> mset (filter (\<lambda>t. id_txn t \<in> id_txn ` set W) M) = mset W)
     \<and> (fk_intact db \<longrightarrow>
          exportToCsv ilike sd sa db uid (f\<lparr>page := Some p\<rparr>)
            = Inr (terminated_lines (csv_header # map (spec_csv_line sd sa)
                (map (leftJoin db)
                   (orderBy_DESC date (filter (\<lambda>t. id_txn t \<in> id_txn ` set W) M))))))
     \<and> (p = 2 \<and> length M \<le> 10000 \<longrightarrow>
          exportToCsv ilike sd sa db uid (f\<lparr>page := Some p\<rparr>) = Inr (csv_header @ [CHR 0x0A]))"
proof -
  let ?f = "f\<lparr>page := Some p\<rparr>"
  have pos: "0 < pageNum ?f" using assms(1) by simp
  have ids: "set (page_ids ((pageNum ?f - 1) * 10000) 10000 M) = id_txn ` set W"
    by (simp add: page_ids_def W_def)
  have c1: "exportToCsv ilike sd sa db uid (f\<lparr>page := Some p, limit := l\<rparr>)
           = exportToCsv ilike sd sa db uid ?f"
    by (simp add: exportToCsv_def)
  have c2: "exportToCsv ilike sd sa db uid ?f
           = forEach_rows sd sa
               (map (leftJoin db) (orderBy_DESC date (filter (\<lambda>t. id_txn t \<in> id_txn ` set W) M)))
               (csv_header @ [CHR 0x0A])"
    using export_forEach [OF pos, of ilike sd sa db uid] ids by (simp add: M_def)
  have c3: "mset (filter (\<lambda>t. id_txn t \<in> id_txn ` set W) M) = mset W" if "pk_intact db"
  proof -
    have "distinct (map id_txn M)" unfolding M_def by (rule pk_matching [OF that])
    from mset_selected [OF this, of "(p - 1) * 10000" 10000]
    show ?thesis by (simp add: page_ids_def W_def)
  qed
  have c4: "exportToCsv ilike sd sa db uid ?f
            = Inr (terminated_lines (csv_header # map (spec_csv_line sd sa)
                (map (leftJoin db)
                   (orderBy_DESC date (filter (\<lambda>t. id_txn t \<in> id_txn ` set W) M)))))"
    if "fk_intact db"
    using export_window [OF pos that, of ilike sd sa uid] ids by (simp add: M_def)
  have c5: "exportToCsv ilike sd sa db uid ?f = Inr (csv_header @ [CHR 0x0A])"
    if "p = 2 \<and> length M \<le> 10000"
  proof -
    from that have "W = []" by (simp add: W_def length_page_order)
    then show ?thesis unfolding c2 by (simp add: orderBy_DESC_def)
  qed
  from c1 c2 c3 c4 c5 show ?thesis by blast
qed

theorem export_forwards_page_witness:
  "(0::int) < 2 \<and> fk_intact demo_store \<and> pk_intact demo_store
   \<and> length (filter (matches (\<lambda>p d. False) ''U'' no_filters) (transactions demo_store)) \<le> 10000
   \<and> exportToCsv (\<lambda>p d. False) january money demo_store ''U'' (no_filters\<lparr>page := Some 2, limit := Some 5\<rparr>)
       = Inr (''Date,Type,Category,Amount,Description'' @ [CHR 0x0A])"
proof -
  have h: "(0::int) < 2" by simp
  have k: "fk_intact demo_store" "pk_intact demo_store"
    "length (filter (matches (\<lambda>p d. False) ''U'' no_filters) (transactions demo_store)) \<le> 10000"
    by (simp_all add: fk_intact_def pk_intact_def eval_findAll demo)
  note e = export_forwards_page [OF h, where ilike = "\<lambda>p d. False" and sd = january and sa = money
      and db = demo_store and uid = "''U''" and f = no_filters and l = "Some 5"]
  from e have a: "exportToCsv (\<lambda>p d. False) january money demo_store ''U''
        (no_filters\<lparr>page := Some 2, limit := Some 5\<rparr>)
      = exportToCsv (\<lambda>p d. False) january money demo_store ''U'' (no_filters\<lparr>page := Some 2\<rparr>)"
    by (rule conjunct1)
  from e k(3) have b: "exportToCsv (\<lambda>p d. False) january money demo_store ''U''
        (no_filters\<lparr>page := Some 2\<rparr>) = Inr (csv_header @ [CHR 0x0A])"
    by blast
  from a b h k show ?thesis by (simp add: csv_header_def)
qed

end
